theory Spec2Isabelle
  imports Complex_Main "HOL-Library.Word"
begin

section \<open>Data model\<close>

text \<open>
  The development follows \<^verbatim>\<open>sbpl_lattice_planner.cpp\<close>. Bytes
  (\<^verbatim>\<open>unsigned char\<close>) are 8-bit words. IEEE doubles are idealised as real
  numbers: rounding, infinities and NaN are outside the model. Members of the planner
  class keep their names without the trailing underscore, which is not a legal name here.
\<close>

type_synonym u8 = "8 word"

text \<open>
  The sentinel values of a costmap cell are declared in
  \<^verbatim>\<open>costmap_2d/cost_values.h\<close> of the ROS navigation stack, which the planner
  only includes; they have these values there.
\<close>

definition NO_INFORMATION :: u8 where
  "NO_INFORMATION = 255"

definition LETHAL_OBSTACLE :: u8 where
  "LETHAL_OBSTACLE = 254"

definition INSCRIBED_INFLATED_OBSTACLE :: u8 where
  "INSCRIBED_INFLATED_OBSTACLE = 253"

subsection \<open>Messages\<close>

text \<open>
  \<^verbatim>\<open>geometry_msgs::PoseStamped\<close> and its parts. A time stamp is a real number of
  seconds. Comparing two messages with \<^verbatim>\<open>!=\<close> compares every field, which is
  equality of records.
\<close>

record point =
  p_x :: real
  p_y :: real
  p_z :: real

record quaternion =
  q_x :: real
  q_y :: real
  q_z :: real
  q_w :: real

record header =
  seq :: nat
  stamp :: real
  frame_id :: string

record pose =
  position :: point
  orientation :: quaternion

record pose_stamped =
  header :: header
  pose :: pose

text \<open>A default-constructed message: every number zero, every string empty.\<close>

definition default_pose_stamped :: pose_stamped where
  "default_pose_stamped =
     \<lparr>header = \<lparr>seq = 0, stamp = 0, frame_id = []\<rparr>,
      pose = \<lparr>position = \<lparr>p_x = 0, p_y = 0, p_z = 0\<rparr>,
              orientation = \<lparr>q_x = 0, q_y = 0, q_z = 0, q_w = 0\<rparr>\<rparr>\<rparr>"

text \<open>A lattice pose of the search engine, \<^verbatim>\<open>EnvNAVXYTHETALAT3Dpt_t\<close>.\<close>

record xytheta =
  l_x :: real
  l_y :: real
  l_theta :: real

subsection \<open>Collaborators\<close>

text \<open>
  What one call reads from \<^verbatim>\<open>costmap_ros_\<close>, from the parameter server and from
  the clock. \<open>getRobotPose\<close> is \<open>None\<close> when the costmap cannot give the robot's
  pose. \<open>inflation_costs\<close> lists, for each inflation layer among the costmap's
  plugins and in their order, what its \<^verbatim>\<open>computeCost\<close> returns at the
  circumscribed radius.
\<close>

record world =
  getRobotPose :: "pose_stamped option"
  getRobotFootprint :: "point list"
  getGlobalFrameID :: string
  getSizeInCellsX :: nat
  getSizeInCellsY :: nat
  getOriginX :: real
  getOriginY :: real
  getCost :: "nat \<Rightarrow> nat \<Rightarrow> u8"
  inflation_costs :: "u8 list"
  time_now :: real
  param_planner_type :: string
  param_environment_type :: string
  param_force_scratch_limit :: int
  param_smooth_window :: int
  param_lethal_obstacle :: int

text \<open>
  The answers of the opaque search engine (the SBPL environment and planner) to the calls
  of one planning cycle; each is called at most once in a cycle. \<open>None\<close> stands for an
  \<^verbatim>\<open>SBPL_Exception\<close> thrown by the call.
\<close>

record engine =
  r_SetEnvParameter_inscribed :: bool
  r_SetEnvParameter_circumscribed :: bool
  r_InitializeEnv :: "bool option"
  r_SetStart :: "int option"
  r_set_start :: "int option"
  r_SetGoal :: "int option"
  r_set_goal :: "int option"
  r_costs_changed :: "unit option"
  r_force_planning_from_scratch :: "unit option"
  r_replan :: "(int \<times> int list \<times> int) option"
  r_ConvertStateIDPathintoXYThetaPath :: "xytheta list option"

text \<open>
  The calls the planner makes on the engine and on its publishers, in the order made. Reads
  and writes of the engine's cost grid are not listed: they act on the grid itself, which is
  part of the state.
\<close>

datatype call =
    SetEnvParameter string u8
  | InitializeEnv nat nat
  | SetStart real real real
  | set_start int
  | SetGoal real real real
  | set_goal int
  | costs_changed "(nat \<times> nat) list"
  | force_planning_from_scratch
  | set_initialsolution_eps
  | set_search_mode bool
  | replan
  | ConvertStateIDPathintoXYThetaPath "int list"
  | publish_stats int nat
  | publish_plan "pose_stamped list"
  | publish_rough_plan "pose_stamped list"

subsection \<open>The planner object\<close>

record cost_fields =
  lethal_obstacle :: u8
  inscribed_inflated_obstacle :: u8
  sbpl_cost_multiplier :: u8

text \<open>
  \<open>env\<close> is the cost grid held by the engine's environment (its mirror of the costmap),
  read by \<^verbatim>\<open>GetMapCost\<close> and written by \<^verbatim>\<open>UpdateCost\<close>. \<open>calls\<close> is
  the history of calls made so far.
\<close>

record planner = cost_fields +
  initialized :: bool
  planner_type :: string
  environment_type :: string
  force_scratch_limit :: int
  smooth_window :: int
  footprint :: "point list"
  circumscribed_cost :: u8
  current_env_width :: nat
  current_env_height :: nat
  env :: "nat \<Rightarrow> nat \<Rightarrow> u8"
  previous_plan :: "pose_stamped list"
  previous_goal :: pose_stamped
  robot_pose_when_plan_was_created :: pose_stamped
  calls :: "call list"

text \<open>How a call can end without returning.\<close>

datatype fault = ProcessExit | DivisionByZero

section \<open>The cost mapper\<close>

text \<open>
  \<^verbatim>\<open>costMapCostToSBPLCost\<close>. Both operands of the division are bytes, so the
  division of the promoted integers is the division of the words. A zero multiplier would
  trap in the program; \<open>cost_parameters\<close> below never produces one.
\<close>

definition costMapCostToSBPLCost :: "'a cost_fields_scheme \<Rightarrow> u8 \<Rightarrow> u8" where
  "costMapCostToSBPLCost P newcost =
     (if newcost = LETHAL_OBSTACLE then lethal_obstacle P
      else if newcost = INSCRIBED_INFLATED_OBSTACLE then inscribed_inflated_obstacle P
      else if newcost = 0 \<or> newcost = NO_INFORMATION then 0
      else (let sbpl_cost = newcost div sbpl_cost_multiplier P
            in if sbpl_cost = 0 then 1 else sbpl_cost))"

text \<open>
  The three cost members as \<^verbatim>\<open>initialize\<close> derives them from the parameter
  \<^verbatim>\<open>lethal_obstacle\<close>: a cast to a byte, a byte decrement, and an integer
  division that traps when the decremented byte is zero.
\<close>

definition cost_parameters :: "int \<Rightarrow> fault + cost_fields" where
  "cost_parameters lethal =
     (let lethal_byte = (word_of_int lethal :: u8);
          inscribed = lethal_byte - 1
      in if inscribed = 0 then Inl DivisionByZero
         else Inr \<lparr>lethal_obstacle = lethal_byte,
                   inscribed_inflated_obstacle = inscribed,
                   sbpl_cost_multiplier =
                     word_of_int (uint INSCRIBED_INFLATED_OBSTACLE div uint inscribed + 1)\<rparr>)"

section \<open>Geometry\<close>

text \<open>
  \<^verbatim>\<open>std::atan2\<close> of the C library, by its mathematical definition: the angle in
  \<open>(-\<pi>, \<pi>]\<close> of the point \<open>(x, y)\<close>, and \<open>0\<close> at the origin.
\<close>

definition atan2 :: "real \<Rightarrow> real \<Rightarrow> real" where
  "atan2 y x =
     (if 0 < x then arctan (y / x)
      else if x < 0 then (if 0 \<le> y then arctan (y / x) + pi else arctan (y / x) - pi)
      else if 0 < y then pi / 2
      else if y < 0 then - (pi / 2)
      else 0)"

text \<open>
  \<^verbatim>\<open>tf2::Quaternion::setRPY\<close> and \<^verbatim>\<open>tf::createQuaternionMsgFromYaw\<close>,
  which is \<^verbatim>\<open>setRPY(0, 0, yaw)\<close>, as the tf libraries define them.
\<close>

definition setRPY :: "real \<Rightarrow> real \<Rightarrow> real \<Rightarrow> quaternion" where
  "setRPY roll pitch yaw =
     \<lparr>q_x = sin (roll / 2) * cos (pitch / 2) * cos (yaw / 2)
              - cos (roll / 2) * sin (pitch / 2) * sin (yaw / 2),
      q_y = cos (roll / 2) * sin (pitch / 2) * cos (yaw / 2)
              + sin (roll / 2) * cos (pitch / 2) * sin (yaw / 2),
      q_z = cos (roll / 2) * cos (pitch / 2) * sin (yaw / 2)
              - sin (roll / 2) * sin (pitch / 2) * cos (yaw / 2),
      q_w = cos (roll / 2) * cos (pitch / 2) * cos (yaw / 2)
              + sin (roll / 2) * sin (pitch / 2) * sin (yaw / 2)\<rparr>"

definition createQuaternionMsgFromYaw :: "real \<Rightarrow> quaternion" where
  "createQuaternionMsgFromYaw yaw = setRPY 0 0 yaw"

definition distanceBetweenPoses :: "pose_stamped \<Rightarrow> pose_stamped \<Rightarrow> real" where
  "distanceBetweenPoses one two =
     (let dx = p_x (position (pose one)) - p_x (position (pose two));
          dy = p_y (position (pose one)) - p_y (position (pose two))
      in sqrt (dx * dx + dy * dy))"

section \<open>Initialization\<close>

definition called :: "call \<Rightarrow> planner \<Rightarrow> planner" where
  "called c P = P\<lparr>calls := calls P @ [c]\<rparr>"

text \<open>The engine's \<^verbatim>\<open>GetMapCost\<close> and \<^verbatim>\<open>UpdateCost\<close> on its cost grid.\<close>

definition GetMapCost :: "planner \<Rightarrow> nat \<Rightarrow> nat \<Rightarrow> u8" where
  "GetMapCost P ix iy = env P ix iy"

definition UpdateCost :: "nat \<Rightarrow> nat \<Rightarrow> u8 \<Rightarrow> planner \<Rightarrow> planner" where
  "UpdateCost ix iy c P = P\<lparr>env := (env P)(ix := (env P ix)(iy := c))\<rparr>"

text \<open>
  \<^verbatim>\<open>computeCircumscribedCost\<close>: the loop over the costmap's plugins keeps the
  mapped cost of the last inflation layer, and \<open>0\<close> when there is none.
\<close>

definition computeCircumscribedCost :: "planner \<Rightarrow> world \<Rightarrow> u8" where
  "computeCircumscribedCost P w =
     fold (\<lambda>c result. costMapCostToSBPLCost P c) (inflation_costs w) 0"

text \<open>The double loop of \<^verbatim>\<open>initialize\<close> that seeds every cell of the engine's grid.\<close>

definition seedCosts :: "world \<Rightarrow> planner \<Rightarrow> planner" where
  "seedCosts w P =
     fold (\<lambda>ix. fold (\<lambda>iy Q. UpdateCost ix iy (costMapCostToSBPLCost Q (getCost w ix iy)) Q)
                   [0..<getSizeInCellsY w])
          [0..<getSizeInCellsX w] P"

text \<open>
  \<^verbatim>\<open>initialize\<close>. Every \<^verbatim>\<open>exit(1)\<close> is \<open>Inl ProcessExit\<close>. A fresh
  environment initialized without map data has cost \<open>0\<close> in every cell.
\<close>

definition initialize :: "planner \<Rightarrow> world \<Rightarrow> engine \<Rightarrow> fault + planner" where
  "initialize P w e =
     (if initialized P then Inr P
      else case cost_parameters (param_lethal_obstacle w) of
        Inl f \<Rightarrow> Inl f
      | Inr cf \<Rightarrow>
          (let P1 = P\<lparr>lethal_obstacle := lethal_obstacle cf,
                      inscribed_inflated_obstacle := inscribed_inflated_obstacle cf,
                      sbpl_cost_multiplier := sbpl_cost_multiplier cf,
                      planner_type := param_planner_type w,
                      environment_type := param_environment_type w,
                      force_scratch_limit := param_force_scratch_limit w,
                      smooth_window := param_smooth_window w,
                      footprint := getRobotFootprint w\<rparr>
           in if environment_type P1 \<noteq> ''XYThetaLattice'' then Inl ProcessExit
              else
                (let P2 = P1\<lparr>circumscribed_cost := computeCircumscribedCost P1 w\<rparr>;
                     P3 = called (SetEnvParameter ''cost_inscribed_thresh''
                            (costMapCostToSBPLCost P2 INSCRIBED_INFLATED_OBSTACLE)) P2
                 in if \<not> r_SetEnvParameter_inscribed e then Inl ProcessExit
                    else
                      (let P4 = called (SetEnvParameter ''cost_possibly_circumscribed_thresh''
                                  (circumscribed_cost P3)) P3
                       in if \<not> r_SetEnvParameter_circumscribed e then Inl ProcessExit
                          else
                            (let P5 = called (InitializeEnv (getSizeInCellsX w)
                                        (getSizeInCellsY w)) P4
                             in case r_InitializeEnv e of
                                  None \<Rightarrow> Inl ProcessExit
                                | Some ret \<Rightarrow>
                                    if \<not> ret then Inl ProcessExit
                                    else
                                      (let P6 = P5\<lparr>env := (\<lambda>ix iy. 0),
                                                  current_env_width := getSizeInCellsX w,
                                                  current_env_height := getSizeInCellsY w\<rparr>;
                                           P7 = seedCosts w P6
                                       in if planner_type P7 = ''ARAPlanner''
                                             \<or> planner_type P7 = ''ADPlanner''
                                          then Inr (P7\<lparr>initialized := True\<rparr>)
                                          else Inl ProcessExit))))))"

section \<open>One planning cycle\<close>

subsection \<open>Start and goal\<close>

text \<open>
  The two \<^verbatim>\<open>try\<close> blocks that pose the start and the goal. The planner's
  \<^verbatim>\<open>set_start\<close> is only called when the environment returned a state id that is
  not negative. The result is whether the cycle goes on.
\<close>

definition setStartState ::
  "planner \<Rightarrow> world \<Rightarrow> engine \<Rightarrow> pose_stamped \<Rightarrow> real \<Rightarrow> bool \<times> planner" where
  "setStartState P w e start theta_start =
     (let P1 = called (SetStart (p_x (position (pose start)) - getOriginX w)
                         (p_y (position (pose start)) - getOriginY w) theta_start) P
      in case r_SetStart e of
           None \<Rightarrow> (False, P1)
         | Some ret \<Rightarrow>
             if ret < 0 then (False, P1)
             else (let P2 = called (set_start ret) P1
                   in case r_set_start e of
                        None \<Rightarrow> (False, P2)
                      | Some r \<Rightarrow> (r \<noteq> 0, P2)))"

definition setGoalState ::
  "planner \<Rightarrow> world \<Rightarrow> engine \<Rightarrow> pose_stamped \<Rightarrow> real \<Rightarrow> bool \<times> planner" where
  "setGoalState P w e goal theta_goal =
     (let P1 = called (SetGoal (p_x (position (pose goal)) - getOriginX w)
                         (p_y (position (pose goal)) - getOriginY w) theta_goal) P
      in case r_SetGoal e of
           None \<Rightarrow> (False, P1)
         | Some ret \<Rightarrow>
             if ret < 0 then (False, P1)
             else (let P2 = called (set_goal ret) P1
                   in case r_set_goal e of
                        None \<Rightarrow> (False, P2)
                      | Some r \<Rightarrow> (r \<noteq> 0, P2)))"

subsection \<open>Synchronizing the engine's grid with the costmap\<close>

text \<open>
  The state of the double loop over the cells: the planner (whose grid the loop writes),
  the changed cells in the order found, and the three counters. The counters are
  \<^verbatim>\<open>int\<close> in the program; a grid has far fewer than \<open>2^31\<close> cells, so they
  are integers here.
\<close>

record sync =
  s_planner :: planner
  changedcellsV :: "(nat \<times> nat) list"
  allCount :: int
  offOnCount :: int
  onOffCount :: int

definition syncCell :: "world \<Rightarrow> nat \<Rightarrow> nat \<Rightarrow> sync \<Rightarrow> sync" where
  "syncCell w ix iy S =
     (let P = s_planner S;
          oldCost = GetMapCost P ix iy;
          newCost = costMapCostToSBPLCost P (getCost w ix iy)
      in if oldCost = newCost then S
         else
           \<lparr>s_planner = UpdateCost ix iy (costMapCostToSBPLCost P (getCost w ix iy)) P,
            changedcellsV = changedcellsV S @ [(ix, iy)],
            allCount = allCount S + 1,
            offOnCount =
              (if (oldCost \<noteq> costMapCostToSBPLCost P LETHAL_OBSTACLE
                   \<and> oldCost \<noteq> costMapCostToSBPLCost P INSCRIBED_INFLATED_OBSTACLE)
                  \<and> (newCost = costMapCostToSBPLCost P LETHAL_OBSTACLE
                       \<or> newCost = costMapCostToSBPLCost P INSCRIBED_INFLATED_OBSTACLE)
               then offOnCount S + 1 else offOnCount S),
            onOffCount =
              (if (oldCost = costMapCostToSBPLCost P LETHAL_OBSTACLE
                   \<or> oldCost = costMapCostToSBPLCost P INSCRIBED_INFLATED_OBSTACLE)
                  \<and> (newCost \<noteq> costMapCostToSBPLCost P LETHAL_OBSTACLE
                       \<and> newCost \<noteq> costMapCostToSBPLCost P INSCRIBED_INFLATED_OBSTACLE)
               then onOffCount S + 1 else onOffCount S)\<rparr>)"

definition syncCosts :: "world \<Rightarrow> planner \<Rightarrow> sync" where
  "syncCosts w P =
     fold (\<lambda>ix. fold (\<lambda>iy. syncCell w ix iy) [0..<getSizeInCellsY w])
          [0..<getSizeInCellsX w]
          \<lparr>s_planner = P, changedcellsV = [], allCount = 0, offOnCount = 0, onOffCount = 0\<rparr>"

text \<open>
  The \<^verbatim>\<open>try\<close> block after the loop: the planner is told of the changed cells
  when there are any, and then told to plan from scratch when the count is over the limit.
  An exception of either call ends the cycle.
\<close>

definition notifyChanges ::
  "planner \<Rightarrow> engine \<Rightarrow> (nat \<times> nat) list \<Rightarrow> int \<Rightarrow> bool \<times> planner" where
  "notifyChanges P e cells count =
     (if cells \<noteq> [] \<and> r_costs_changed e = None then (False, called (costs_changed cells) P)
      else
        (let P1 = (if cells \<noteq> [] then called (costs_changed cells) P else P)
         in if count > force_scratch_limit P1
            then (r_force_planning_from_scratch e \<noteq> None, called force_planning_from_scratch P1)
            else (True, P1)))"

subsection \<open>From the lattice path to the smoothed plan\<close>

definition roughPose :: "world \<Rightarrow> pose_stamped \<Rightarrow> xytheta \<Rightarrow> pose_stamped" where
  "roughPose w start pt =
     \<lparr>header = \<lparr>seq = 0, stamp = time_now w, frame_id = getGlobalFrameID w\<rparr>,
      pose = \<lparr>position = \<lparr>p_x = l_x pt + getOriginX w,
                          p_y = l_y pt + getOriginY w,
                          p_z = p_z (position (pose start))\<rparr>,
              orientation = setRPY 0 0 (l_theta pt)\<rparr>\<rparr>"

text \<open>
  The body shared by the two smoothing loops: a pose with the header of
  \<^verbatim>\<open>rough_plan[i]\<close> whose seven numbers are the sums over the indices \<open>js\<close>
  divided by their count. With no index the program divides zero by zero; the model gives
  \<open>0\<close> there.
\<close>

definition windowMean :: "pose_stamped list \<Rightarrow> nat \<Rightarrow> nat list \<Rightarrow> pose_stamped" where
  "windowMean rough_plan i js =
     (let total = real (length js);
          mean = (\<lambda>f. (\<Sum>j\<leftarrow>js. f (pose (rough_plan ! j))) / total)
      in \<lparr>header = header (rough_plan ! i),
          pose = \<lparr>position = \<lparr>p_x = mean (\<lambda>p. p_x (position p)),
                              p_y = mean (\<lambda>p. p_y (position p)),
                              p_z = mean (\<lambda>p. p_z (position p))\<rparr>,
                  orientation = \<lparr>q_x = mean (\<lambda>p. q_x (orientation p)),
                                 q_y = mean (\<lambda>p. q_y (orientation p)),
                                 q_z = mean (\<lambda>p. q_z (orientation p)),
                                 q_w = mean (\<lambda>p. q_w (orientation p))\<rparr>\<rparr>\<rparr>)"

text \<open>
  The indices \<open>j\<close> of the inner loop of the first pass at index \<open>i\<close>, for a path of \<open>n\<close>
  poses and window \<open>sw\<close>. The lower bound is computed on \<^verbatim>\<open>int\<close>. The upper bound
  compares \<^verbatim>\<open>i + smooth_window_\<close> with the unsigned size, so a negative sum counts
  as larger than any size.
\<close>

definition mainWindow :: "nat \<Rightarrow> int \<Rightarrow> nat \<Rightarrow> nat list" where
  "mainWindow n sw i =
     (let lo = (if int i - sw < 0 then 0 else int i - sw);
          hi = (if 0 \<le> int i + sw \<and> int i + sw < int n then int i + sw else int n - 1)
      in map nat [lo..hi])"

definition mainPass :: "int \<Rightarrow> pose_stamped list \<Rightarrow> pose_stamped list \<Rightarrow> pose_stamped list" where
  "mainPass sw rough_plan plan =
     fold (\<lambda>i pl. pl @ [windowMean rough_plan i (mainWindow (length rough_plan) sw i)])
          [0..<length rough_plan] plan"

text \<open>
  The second loop. Its first index is \<^verbatim>\<open>rough_plan.size() - smooth_window_\<close>
  computed on the unsigned size type, where the test \<^verbatim>\<open>< 0\<close> never holds, and then
  stored in an \<^verbatim>\<open>int\<close>; the loop condition compares that \<^verbatim>\<open>int\<close> with the
  unsigned size again, so a negative first index ends the loop at once. Every round
  appends a pose to the plan with \<^verbatim>\<open>push_back\<close>.
\<close>

definition tailFirst :: "nat \<Rightarrow> int \<Rightarrow> int" where
  "tailFirst n sw = sint (word_of_int (int n - sw) :: 32 word)"

definition tailIndices :: "nat \<Rightarrow> int \<Rightarrow> nat list" where
  "tailIndices n sw = (if 0 \<le> tailFirst n sw then [nat (tailFirst n sw)..<n] else [])"

definition tailPass :: "int \<Rightarrow> pose_stamped list \<Rightarrow> pose_stamped list \<Rightarrow> pose_stamped list" where
  "tailPass sw rough_plan plan =
     fold (\<lambda>i pl. pl @ [windowMean rough_plan i [i..<length rough_plan]])
          (tailIndices (length rough_plan) sw) plan"

text \<open>
  The last loop overwrites the orientation of every pose of the plan but the last. The
  plan is never empty there.
\<close>

definition overwriteOrientation :: "pose_stamped list \<Rightarrow> pose_stamped list" where
  "overwriteOrientation plan =
     fold (\<lambda>i pl. pl[i := (pl ! i)\<lparr>pose := (pose (pl ! i))\<lparr>orientation :=
                     createQuaternionMsgFromYaw
                       (atan2 (p_y (position (pose (pl ! (i + 1)))) - p_y (position (pose (pl ! i))))
                              (p_x (position (pose (pl ! (i + 1)))) - p_x (position (pose (pl ! i)))))\<rparr>\<rparr>])
          [0..<length plan - 1] plan"

definition smoothPlan :: "int \<Rightarrow> pose_stamped list \<Rightarrow> pose_stamped list" where
  "smoothPlan sw rough_plan = overwriteOrientation (tailPass sw rough_plan (mainPass sw rough_plan []))"

subsection \<open>The search and the whole cycle\<close>

text \<open>The lattice pose put in place of an empty converted path.\<close>

definition startPoint :: "world \<Rightarrow> pose_stamped \<Rightarrow> real \<Rightarrow> xytheta" where
  "startPoint w start theta_start =
     \<lparr>l_x = p_x (position (pose start)) - getOriginX w,
      l_y = p_y (position (pose start)) - getOriginY w,
      l_theta = theta_start\<rparr>"

definition runSearch ::
  "planner \<Rightarrow> world \<Rightarrow> engine \<Rightarrow> pose_stamped \<Rightarrow> real \<Rightarrow> bool \<times> pose_stamped list \<times> planner" where
  "runSearch P w e start theta_start =
     (let P1 = called replan (called (set_search_mode False) (called set_initialsolution_eps P))
      in case r_replan e of
           None \<Rightarrow> (False, [], P1)
         | Some (ret, solution_stateIDs, solution_cost) \<Rightarrow>
             if ret = 0 then (False, [], called (publish_stats solution_cost 0) P1)
             else
               (let P2 = called (ConvertStateIDPathintoXYThetaPath solution_stateIDs) P1
                in case r_ConvertStateIDPathintoXYThetaPath e of
                     None \<Rightarrow> (False, [], P2)
                   | Some converted \<Rightarrow>
                       (let sbpl_path = (if length converted = 0
                                         then converted @ [startPoint w start theta_start]
                                         else converted);
                            rough_plan = map (roughPose w start) sbpl_path;
                            plan = smoothPlan (smooth_window P2) rough_plan;
                            P3 = called (publish_plan plan) P2;
                            P4 = called (publish_rough_plan rough_plan) P3;
                            P5 = called (publish_stats solution_cost (length sbpl_path)) P4
                        in (True, plan, P5))))"

text \<open>\<^verbatim>\<open>makePlanInternal\<close> from \<^verbatim>\<open>plan.clear()\<close> on.\<close>

definition planCycle ::
  "planner \<Rightarrow> world \<Rightarrow> engine \<Rightarrow> pose_stamped \<Rightarrow> pose_stamped
     \<Rightarrow> bool \<times> pose_stamped list \<times> planner" where
  "planCycle P w e start goal =
     (let theta_start = 2 * atan2 (q_z (orientation (pose start))) (q_w (orientation (pose start)));
          theta_goal = 2 * atan2 (q_z (orientation (pose goal))) (q_w (orientation (pose goal)));
          (ok_start, P1) = setStartState P w e start theta_start
      in if \<not> ok_start then (False, [], P1)
         else
           (let (ok_goal, P2) = setGoalState P1 w e goal theta_goal
            in if \<not> ok_goal then (False, [], P2)
               else
                 (let S = syncCosts w P2;
                      (ok_notify, P3) = notifyChanges (s_planner S) e (changedcellsV S) (allCount S)
                  in if \<not> ok_notify then (False, [], P3)
                     else runSearch P3 w e start theta_start)))"

definition do_init :: "planner \<Rightarrow> world \<Rightarrow> bool" where
  "do_init P w =
     (if current_env_width P \<noteq> getSizeInCellsX w \<or> current_env_height P \<noteq> getSizeInCellsY w
      then True
      else if footprint P \<noteq> getRobotFootprint w then True
      else if circumscribed_cost P \<noteq> computeCircumscribedCost P w then True
      else False)"

text \<open>
  \<^verbatim>\<open>makePlanInternal\<close>. The plan handed in is cleared on every path, so the
  plan returned does not depend on it.
\<close>

definition makePlanInternal ::
  "planner \<Rightarrow> world \<Rightarrow> engine \<Rightarrow> pose_stamped \<Rightarrow> pose_stamped \<Rightarrow> pose_stamped list
     \<Rightarrow> fault + bool \<times> pose_stamped list \<times> planner" where
  "makePlanInternal P w e start goal plan =
     (if \<not> initialized P then Inr (False, [], P)
      else
        case (if do_init P w then initialize (P\<lparr>initialized := False\<rparr>) w e else Inr P) of
          Inl f \<Rightarrow> Inl f
        | Inr P1 \<Rightarrow> Inr (planCycle P1 w e start goal))"

section \<open>The replan gate\<close>

text \<open>The goal handed to the cycle: the requested one, or one pulled in to the horizon.\<close>

definition maximum_planning_distance :: real where
  "maximum_planning_distance = 20"

definition clampGoal :: "pose_stamped \<Rightarrow> pose_stamped \<Rightarrow> pose_stamped" where
  "clampGoal robot_pose goal =
     (let dx = p_x (position (pose goal)) - p_x (position (pose robot_pose));
          dy = p_y (position (pose goal)) - p_y (position (pose robot_pose));
          dist = sqrt (dx * dx + dy * dy)
      in if dist > maximum_planning_distance
         then goal\<lparr>pose := \<lparr>position = (position (pose goal))
                               \<lparr>p_x := p_x (position (pose robot_pose))
                                         + maximum_planning_distance * dx / dist,
                                p_y := p_y (position (pose robot_pose))
                                         + maximum_planning_distance * dy / dist\<rparr>,
                             orientation = createQuaternionMsgFromYaw (atan2 dy dx)\<rparr>\<rparr>
         else goal)"

definition must_make_plan :: "planner \<Rightarrow> pose_stamped \<Rightarrow> pose_stamped \<Rightarrow> bool" where
  "must_make_plan P robot_pose goal =
     (previous_plan P = []
      \<or> goal \<noteq> previous_goal P
      \<or> distanceBetweenPoses robot_pose (robot_pose_when_plan_was_created P) > 10
      \<or> stamp (header robot_pose) - stamp (header (robot_pose_when_plan_was_created P)) > 10)"

text \<open>
  \<^verbatim>\<open>makePlan\<close>. The result is the returned flag, the caller's plan after the call
  and the planner after the call. \<^verbatim>\<open>plan.empty()\<close> on the first path only asks
  whether the plan is empty.
\<close>

definition makePlan ::
  "planner \<Rightarrow> world \<Rightarrow> engine \<Rightarrow> pose_stamped \<Rightarrow> pose_stamped \<Rightarrow> pose_stamped list
     \<Rightarrow> fault + bool \<times> pose_stamped list \<times> planner" where
  "makePlan P w e start goal plan =
     (case getRobotPose w of
        None \<Rightarrow> Inr (False, plan, P)
      | Some robot_pose \<Rightarrow>
          if \<not> must_make_plan P robot_pose goal then Inr (True, previous_plan P, P)
          else
            (let P1 = P\<lparr>previous_goal := goal\<rparr>;
                 actual_goal = clampGoal robot_pose goal
             in case makePlanInternal P1 w e start actual_goal plan of
                  Inl f \<Rightarrow> Inl f
                | Inr (successful, plan', P2) \<Rightarrow>
                    Inr (successful, plan',
                         P2\<lparr>previous_plan := plan',
                            robot_pose_when_plan_was_created := robot_pose\<rparr>)))"

section \<open>A small scenario\<close>

text \<open>
  A planner initialized with the default parameters (lethal \<open>20\<close>, hence inscribed \<open>19\<close>
  and multiplier \<open>253 div 19 + 1 = 14\<close>) on a grid of two cells by one, holding a cached
  plan; a costmap in which the second cell has become lethal; and engines that find a
  path, or none.
\<close>

definition pose_at :: "real \<Rightarrow> real \<Rightarrow> real \<Rightarrow> pose_stamped" where
  "pose_at x y t =
     \<lparr>header = \<lparr>seq = 0, stamp = t, frame_id = ''map''\<rparr>,
      pose = \<lparr>position = \<lparr>p_x = x, p_y = y, p_z = 0\<rparr>,
              orientation = \<lparr>q_x = 0, q_y = 0, q_z = 0, q_w = 1\<rparr>\<rparr>\<rparr>"

definition ex_planner :: planner where
  "ex_planner =
     \<lparr>lethal_obstacle = 20, inscribed_inflated_obstacle = 19, sbpl_cost_multiplier = 14,
      initialized = True, planner_type = ''ARAPlanner'', environment_type = ''XYThetaLattice'',
      force_scratch_limit = 500, smooth_window = 20, footprint = [], circumscribed_cost = 0,
      current_env_width = 2, current_env_height = 1, env = (\<lambda>ix iy. 0),
      previous_plan = [pose_at 0 0 0, pose_at 1 0 0], previous_goal = pose_at 1 0 0,
      robot_pose_when_plan_was_created = pose_at 0 0 0, calls = []\<rparr>"

definition ex_world :: world where
  "ex_world =
     \<lparr>getRobotPose = Some (pose_at 0 0 1), getRobotFootprint = [], getGlobalFrameID = ''map'',
      getSizeInCellsX = 2, getSizeInCellsY = 1, getOriginX = 0, getOriginY = 0,
      getCost = (\<lambda>ix iy. if ix = 1 then LETHAL_OBSTACLE else 0), inflation_costs = [],
      time_now = 1, param_planner_type = ''ARAPlanner'',
      param_environment_type = ''XYThetaLattice'', param_force_scratch_limit = 500,
      param_smooth_window = 20, param_lethal_obstacle = 20\<rparr>"

definition ex_engine :: engine where
  "ex_engine =
     \<lparr>r_SetEnvParameter_inscribed = True, r_SetEnvParameter_circumscribed = True,
      r_InitializeEnv = Some True, r_SetStart = Some 0, r_set_start = Some 1,
      r_SetGoal = Some 1, r_set_goal = Some 1, r_costs_changed = Some (),
      r_force_planning_from_scratch = Some (), r_replan = Some (1, [], 0),
      r_ConvertStateIDPathintoXYThetaPath = Some []\<rparr>"

definition ex_engine_no_solution :: engine where
  "ex_engine_no_solution = ex_engine\<lparr>r_replan := Some (0, [], 0)\<rparr>"

text \<open>
  The calls a cycle adds to the history, and which of them are the two notifications of the
  synchronization: the changed cells and the order to plan from scratch.
\<close>

definition new_calls :: "planner \<Rightarrow> planner \<Rightarrow> call list" where
  "new_calls P P' = drop (length (calls P)) (calls P')"

definition is_notification :: "call \<Rightarrow> bool" where
  "is_notification c =
     (case c of costs_changed cells \<Rightarrow> True | force_planning_from_scratch \<Rightarrow> True | _ \<Rightarrow> False)"

text \<open>
  The cycle of the scenario; the same cycle for a planner whose scratch limit is \<open>0\<close>;
  and a request for a new goal on which the search finds nothing, with the cycle it runs.
\<close>

definition ex_cycle :: "bool \<times> pose_stamped list \<times> planner" where
  "ex_cycle = planCycle ex_planner ex_world ex_engine (pose_at 0 0 1) (pose_at 1 0 0)"

definition ex_over_limit :: planner where
  "ex_over_limit = ex_planner\<lparr>force_scratch_limit := 0\<rparr>"

definition ex_cycle_over_limit :: "bool \<times> pose_stamped list \<times> planner" where
  "ex_cycle_over_limit = planCycle ex_over_limit ex_world ex_engine (pose_at 0 0 1) (pose_at 1 0 0)"

definition ex_failed_request :: "fault + bool \<times> pose_stamped list \<times> planner" where
  "ex_failed_request =
     makePlan ex_planner ex_world ex_engine_no_solution (pose_at 0 0 1) (pose_at 5 0 1) []"

definition ex_failed_cycle :: "bool \<times> pose_stamped list \<times> planner" where
  "ex_failed_cycle =
     planCycle (ex_planner\<lparr>previous_goal := pose_at 5 0 1\<rparr>) ex_world ex_engine_no_solution
       (pose_at 0 0 1) (pose_at 5 0 1)"

text \<open>
  Which calls pose a goal to the environment, which call runs the search, and whether the
  engine accepts the start: the environment returns a state id that is not negative and the
  planner takes it.
\<close>

definition is_SetGoal :: "call \<Rightarrow> bool" where
  "is_SetGoal c = (case c of SetGoal x y th \<Rightarrow> True | _ \<Rightarrow> False)"

definition is_replan :: "call \<Rightarrow> bool" where
  "is_replan c = (c = replan)"

definition start_accepted :: "engine \<Rightarrow> bool" where
  "start_accepted e =
     (case r_SetStart e of
        None \<Rightarrow> False
      | Some ret \<Rightarrow>
          if ret < 0 then False
          else (case r_set_start e of None \<Rightarrow> False | Some r \<Rightarrow> r \<noteq> 0))"

text \<open>
  Further requests and cycles of the scenario: a request for a goal 100 units away; a cycle
  in which \<^verbatim>\<open>costs_changed\<close> throws; and a cycle with smoothing window \<open>1\<close> in
  which the search returns a lattice path of three points.
\<close>

definition ex_far_request :: "fault + bool \<times> pose_stamped list \<times> planner" where
  "ex_far_request = makePlan ex_planner ex_world ex_engine (pose_at 0 0 1) (pose_at 100 0 0) []"

definition ex_engine_throws :: engine where
  "ex_engine_throws = ex_engine\<lparr>r_costs_changed := None\<rparr>"

definition ex_throw_cycle :: "bool \<times> pose_stamped list \<times> planner" where
  "ex_throw_cycle = planCycle ex_planner ex_world ex_engine_throws (pose_at 0 0 1) (pose_at 1 0 0)"




text \<open>The horizontal coordinates of the poses of a plan, for reading examples.\<close>

definition xs_of :: "pose_stamped list \<Rightarrow> real list" where
  "xs_of plan = map (\<lambda>p. p_x (position (pose p))) plan"

section \<open>Properties of the cost mapper\<close>

lemmas sentinel_defs = LETHAL_OBSTACLE_def INSCRIBED_INFLATED_OBSTACLE_def NO_INFORMATION_def

text \<open>Initialization never leaves a zero multiplier behind.\<close>

lemma cost_parameters_multiplier:
  assumes "cost_parameters lethal = Inr cf"
  shows "sbpl_cost_multiplier cf \<noteq> 0"
proof -
  define i where "i = (word_of_int lethal :: u8) - 1"
  have i0: "i \<noteq> 0"
    using assms by (auto simp: cost_parameters_def Let_def i_def split: if_splits)
  have m: "sbpl_cost_multiplier cf = word_of_int (253 div uint i + 1)"
    using assms by (auto simp: cost_parameters_def Let_def i_def sentinel_defs split: if_splits)
  have "uint i \<noteq> 0" using i0 by (simp add: uint_0_iff)
  then have "0 < uint i" using uint_ge_0[of i] by linarith
  moreover have "uint i < 256" using uint_bounded[of i] by simp
  ultimately have "0 \<le> 253 div uint i" "253 div uint i \<le> 253"
    using zdiv_mono2[of 253 1 "uint i"] by (simp_all add: pos_imp_zdiv_nonneg_iff)
  then have "uint (word_of_int (253 div uint i + 1) :: u8) = 253 div uint i + 1"
    unfolding uint_word_of_int by simp
  then have "uint (sbpl_cost_multiplier cf) \<noteq> 0" using m \<open>0 \<le> 253 div uint i\<close> by simp
  then show ?thesis by auto
qed

text \<open>
  Claim C5. With a multiplier that is not zero, the lethal sentinel is mapped to
  \<open>lethal_obstacle\<close>, the inscribed sentinel to \<open>inscribed_inflated_obstacle\<close>, the
  raw costs \<open>0\<close> and \<open>NO_INFORMATION\<close> to \<open>0\<close>, and every other raw cost to the larger
  of \<open>1\<close> and the quotient of the cost by the multiplier, which is never \<open>0\<close>.
\<close>

theorem costMapCostToSBPLCost_table:
  assumes "sbpl_cost_multiplier P \<noteq> 0"
  shows "costMapCostToSBPLCost P LETHAL_OBSTACLE = lethal_obstacle P
    \<and> costMapCostToSBPLCost P INSCRIBED_INFLATED_OBSTACLE = inscribed_inflated_obstacle P
    \<and> costMapCostToSBPLCost P 0 = 0
    \<and> costMapCostToSBPLCost P NO_INFORMATION = 0
    \<and> (raw \<noteq> LETHAL_OBSTACLE \<and> raw \<noteq> INSCRIBED_INFLATED_OBSTACLE \<and> raw \<noteq> 0
         \<and> raw \<noteq> NO_INFORMATION \<longrightarrow>
           costMapCostToSBPLCost P raw = max 1 (raw div sbpl_cost_multiplier P)
         \<and> unat (costMapCostToSBPLCost P raw) = max 1 (unat raw div unat (sbpl_cost_multiplier P))
         \<and> costMapCostToSBPLCost P raw \<noteq> 0)"
proof -
  have mx: "max 1 w = (if w = 0 then 1 else w)" for w :: u8
    by (simp add: max_def word_le_nat_alt unat_eq_0 not_less_eq_eq)
  have un: "unat (if w = 0 then 1 else w) = max 1 (unat w)" for w :: u8
    by (auto simp: max_def unat_eq_0 not_less_eq_eq)
  show ?thesis
    by (simp add: costMapCostToSBPLCost_def sentinel_defs Let_def mx un unat_div
          del: max.absorb1 max.absorb2 max.absorb3 max.absorb4)
qed

theorem costMapCostToSBPLCost_table_witness:
  "sbpl_cost_multiplier ex_planner \<noteq> 0
   \<and> costMapCostToSBPLCost ex_planner LETHAL_OBSTACLE = 20
   \<and> costMapCostToSBPLCost ex_planner INSCRIBED_INFLATED_OBSTACLE = 19
   \<and> costMapCostToSBPLCost ex_planner 0 = 0
   \<and> costMapCostToSBPLCost ex_planner NO_INFORMATION = 0
   \<and> costMapCostToSBPLCost ex_planner 100 = 7
   \<and> costMapCostToSBPLCost ex_planner 5 = 1"
proof -
  have h: "sbpl_cost_multiplier ex_planner \<noteq> 0" by (simp add: ex_planner_def)
  show ?thesis
    using h costMapCostToSBPLCost_table [OF h, of 100] costMapCostToSBPLCost_table [OF h, of 5]
    by (simp add: ex_planner_def sentinel_defs)
qed

text \<open>
  Claim C6. With a multiplier that is not zero, the mapping is monotone on the raw costs
  that are none of the three sentinels.
\<close>

theorem costMapCostToSBPLCost_mono:
  assumes "sbpl_cost_multiplier P \<noteq> 0" and "a < b"
    and "a \<notin> {LETHAL_OBSTACLE, INSCRIBED_INFLATED_OBSTACLE, NO_INFORMATION}"
    and "b \<notin> {LETHAL_OBSTACLE, INSCRIBED_INFLATED_OBSTACLE, NO_INFORMATION}"
  shows "costMapCostToSBPLCost P a \<le> costMapCostToSBPLCost P b"
proof -
  have b0: "b \<noteq> 0" using assms(2) by auto
  have d: "unat (a div sbpl_cost_multiplier P) \<le> unat (b div sbpl_cost_multiplier P)"
    using assms(2) by (simp add: unat_div word_less_nat_alt div_le_mono)
  show ?thesis
    using assms(3,4) b0 d
    by (auto simp: costMapCostToSBPLCost_def Let_def word_le_nat_alt Suc_le_eq unat_gt_0)
qed

theorem costMapCostToSBPLCost_mono_witness:
  "sbpl_cost_multiplier ex_planner \<noteq> 0 \<and> (5 :: u8) < 100
   \<and> costMapCostToSBPLCost ex_planner 5 \<le> costMapCostToSBPLCost ex_planner 100
   \<and> costMapCostToSBPLCost ex_planner 5 = 1 \<and> costMapCostToSBPLCost ex_planner 100 = 7"
proof -
  have h: "sbpl_cost_multiplier ex_planner \<noteq> 0" by (simp add: ex_planner_def)
  have l: "(5 :: u8) < 100" by simp
  have v: "costMapCostToSBPLCost ex_planner 5 = 1" "costMapCostToSBPLCost ex_planner 100 = 7"
    by (simp_all add: costMapCostToSBPLCost_def ex_planner_def sentinel_defs)
  show ?thesis
    using h l v costMapCostToSBPLCost_mono [OF h l] by (simp add: sentinel_defs)
qed

section \<open>Properties of the synchronization loop\<close>


lemma costMapCostToSBPLCost_cong:
  "lethal_obstacle P = lethal_obstacle Q \<Longrightarrow>
   inscribed_inflated_obstacle P = inscribed_inflated_obstacle Q \<Longrightarrow>
   sbpl_cost_multiplier P = sbpl_cost_multiplier Q \<Longrightarrow>
   costMapCostToSBPLCost P = costMapCostToSBPLCost Q"
  by (rule ext) (simp add: costMapCostToSBPLCost_def)

lemma costMapCostToSBPLCost_UpdateCost [simp]:
  "costMapCostToSBPLCost (UpdateCost ix iy c P) = costMapCostToSBPLCost P"
  by (rule costMapCostToSBPLCost_cong) (simp_all add: UpdateCost_def)

lemma syncCell_costs [simp]:
  "costMapCostToSBPLCost (s_planner (syncCell w ix iy S)) = costMapCostToSBPLCost (s_planner S)"
  by (simp add: syncCell_def Let_def)

lemma syncCell_env:
  "env (s_planner (syncCell w ix iy S)) =
     (env (s_planner S))(ix := (env (s_planner S) ix)
        (iy := costMapCostToSBPLCost (s_planner S) (getCost w ix iy)))"
  by (auto simp: syncCell_def Let_def UpdateCost_def GetMapCost_def fun_eq_iff)

lemma syncCell_frame:
  "s_planner (syncCell w ix iy S) = (s_planner S)\<lparr>env := env (s_planner (syncCell w ix iy S))\<rparr>"
  by (simp add: syncCell_def Let_def UpdateCost_def)

lemma syncCell_changedcellsV:
  "changedcellsV (syncCell w ix iy S) =
     changedcellsV S @
       (if env (s_planner S) ix iy \<noteq> costMapCostToSBPLCost (s_planner S) (getCost w ix iy)
        then [(ix, iy)] else [])"
  by (simp add: syncCell_def Let_def GetMapCost_def)

lemma syncCell_allCount:
  "allCount (syncCell w ix iy S) =
     allCount S +
       (if env (s_planner S) ix iy \<noteq> costMapCostToSBPLCost (s_planner S) (getCost w ix iy)
        then 1 else 0)"
  by (simp add: syncCell_def Let_def GetMapCost_def)

lemma fold_product:
  "fold (\<lambda>x. fold (f x) ys) xs = fold (\<lambda>c. f (fst c) (snd c)) (List.product xs ys)"
  by (induction xs) (simp_all add: fold_map comp_def)


lemma syncCells_frame:
  "s_planner (fold (\<lambda>c. syncCell w (fst c) (snd c)) cells S)
     = (s_planner S)\<lparr>env := env (s_planner (fold (\<lambda>c. syncCell w (fst c) (snd c)) cells S))\<rparr>"
proof (induction cells arbitrary: S)
  case Nil
  show ?case by simp
next
  case (Cons c cells)
  show ?case
    by (simp, subst Cons.IH, subst syncCell_frame, simp)
qed


lemma syncCells_changedcellsV:
  "distinct cells \<Longrightarrow>
   changedcellsV (fold (\<lambda>c. syncCell w (fst c) (snd c)) cells S) =
     changedcellsV S @
       filter (\<lambda>c. env (s_planner S) (fst c) (snd c)
                 \<noteq> costMapCostToSBPLCost (s_planner S) (getCost w (fst c) (snd c))) cells"
proof (induction cells arbitrary: S)
  case Nil
  show ?case by simp
next
  case (Cons c cells)
  have rest: "filter (\<lambda>d. env (s_planner (syncCell w (fst c) (snd c) S)) (fst d) (snd d)
                 \<noteq> costMapCostToSBPLCost (s_planner S) (getCost w (fst d) (snd d))) cells
            = filter (\<lambda>d. env (s_planner S) (fst d) (snd d)
                 \<noteq> costMapCostToSBPLCost (s_planner S) (getCost w (fst d) (snd d))) cells"
    using Cons.prems by (intro filter_cong refl) (auto simp: syncCell_env prod_eq_iff)
  from Cons.prems have "distinct cells" by simp
  from Cons.IH[OF this, of "syncCell w (fst c) (snd c) S"] rest
  show ?case by (simp add: syncCell_changedcellsV)
qed

lemma syncCells_allCount:
  "allCount (fold (\<lambda>c. syncCell w (fst c) (snd c)) cells S)
     = allCount S + int (length (changedcellsV (fold (\<lambda>c. syncCell w (fst c) (snd c)) cells S)))
         - int (length (changedcellsV S))"
  by (induction cells arbitrary: S) (simp_all add: syncCell_allCount syncCell_changedcellsV)






section \<open>Properties of the replan gate\<close>

text \<open>
  Claim C10. When the costmap cannot give the robot's pose, \<^verbatim>\<open>makePlan\<close> returns
  false, the caller's plan is what it was, and the planner (the cached plan, the cached
  goal, the recorded robot pose and everything else) is what it was.
\<close>

theorem makePlan_without_robot_pose:
  assumes "getRobotPose w = None"
  shows "makePlan P w e start goal plan = Inr (False, plan, P)"
  using assms by (simp add: makePlan_def)

theorem makePlan_without_robot_pose_witness:
  "getRobotPose (ex_world\<lparr>getRobotPose := None\<rparr>) = None
   \<and> makePlan ex_planner (ex_world\<lparr>getRobotPose := None\<rparr>) ex_engine (pose_at 0 0 1)
        (pose_at 1 0 0) [pose_at 5 5 5] = Inr (False, [pose_at 5 5 5], ex_planner)"
  using makePlan_without_robot_pose [of "ex_world\<lparr>getRobotPose := None\<rparr>" ex_planner ex_engine
          "pose_at 0 0 1" "pose_at 1 0 0" "[pose_at 5 5 5]"]
  by simp

text \<open>
  Claim C3. When the robot's pose is known, a cached plan exists, the requested goal is the
  cached goal, the robot is at most 10 units from where it was when the plan was made and
  at most 10 seconds have passed since, \<^verbatim>\<open>makePlan\<close> returns true with the cached
  plan and leaves the planner as it was: no call is added to the history of engine calls
  and the engine's grid is not touched.
\<close>

theorem makePlan_reuses_cached_plan:
  assumes "getRobotPose w = Some robot_pose"
    and "previous_plan P \<noteq> []"
    and "goal = previous_goal P"
    and "distanceBetweenPoses robot_pose (robot_pose_when_plan_was_created P) \<le> 10"
    and "stamp (header robot_pose) - stamp (header (robot_pose_when_plan_was_created P)) \<le> 10"
  shows "makePlan P w e start goal plan = Inr (True, previous_plan P, P)"
  using assms by (simp add: makePlan_def must_make_plan_def)

theorem makePlan_reuses_cached_plan_witness:
  "getRobotPose ex_world = Some (pose_at 0 0 1)
   \<and> previous_plan ex_planner \<noteq> []
   \<and> pose_at 1 0 0 = previous_goal ex_planner
   \<and> distanceBetweenPoses (pose_at 0 0 1) (robot_pose_when_plan_was_created ex_planner) \<le> 10
   \<and> stamp (header (pose_at 0 0 1))
        - stamp (header (robot_pose_when_plan_was_created ex_planner)) \<le> 10
   \<and> makePlan ex_planner ex_world ex_engine (pose_at 0 0 1) (pose_at 1 0 0) []
        = Inr (True, [pose_at 0 0 0, pose_at 1 0 0], ex_planner)"
proof -
  have h1: "getRobotPose ex_world = Some (pose_at 0 0 1)" by (simp add: ex_world_def)
  have h2: "previous_plan ex_planner \<noteq> []" by (simp add: ex_planner_def)
  have h3: "pose_at 1 0 0 = previous_goal ex_planner" by (simp add: ex_planner_def)
  have h4: "distanceBetweenPoses (pose_at 0 0 1) (robot_pose_when_plan_was_created ex_planner) \<le> 10"
    by (simp add: ex_planner_def distanceBetweenPoses_def pose_at_def)
  have h5: "stamp (header (pose_at 0 0 1))
        - stamp (header (robot_pose_when_plan_was_created ex_planner)) \<le> 10"
    by (simp add: ex_planner_def pose_at_def)
  have p: "previous_plan ex_planner = [pose_at 0 0 0, pose_at 1 0 0]" by (simp add: ex_planner_def)
  from makePlan_reuses_cached_plan [OF h1 h2 h3 h4 h5, of ex_engine "pose_at 0 0 1" "[]"]
  show ?thesis using h1 h2 h3 h4 h5 p by simp
qed

subsection \<open>The goal horizon\<close>

lemma atan2_range: "- pi < atan2 y x \<and> atan2 y x \<le> pi"
proof -
  have a: "- (pi / 2) < arctan (y / x)" "arctan (y / x) < pi / 2"
    by (rule arctan_lbound, rule arctan_ubound)
  have neg: "x < 0 \<Longrightarrow> 0 \<le> y \<Longrightarrow> arctan (y / x) \<le> 0"
    by (simp add: divide_nonneg_neg arctan_le_zero_iff)
  have pos: "x < 0 \<Longrightarrow> y < 0 \<Longrightarrow> 0 < arctan (y / x)"
    by (simp add: divide_neg_neg zero_less_arctan_iff)
  show ?thesis
  proof (cases "0 < x")
    case True
    then show ?thesis using a pi_gt_zero by (simp add: atan2_def)
  next
    case False
    show ?thesis
    proof (cases "x < 0")
      case True
      then show ?thesis using a neg pos pi_gt_zero
        by (cases "0 \<le> y") (simp_all add: atan2_def)
    next
      case False
      with \<open>\<not> 0 < x\<close> have x0: "x = 0" by simp
      consider "0 < y" | "y < 0" | "y = 0" by linarith
      then show ?thesis
      proof cases
        case 1
        then have "atan2 y x = pi / 2" using x0 by (simp add: atan2_def)
        then show ?thesis using pi_gt_zero by (intro conjI; linarith)
      next
        case 2
        then have "atan2 y x = - (pi / 2)" using x0 by (simp add: atan2_def)
        then show ?thesis using pi_gt_zero by (intro conjI; linarith)
      next
        case 3
        then have "atan2 y x = 0" using x0 by (simp add: atan2_def)
        then show ?thesis using pi_gt_zero by (intro conjI; linarith)
      qed
    qed
  qed
qed

lemma twice_atan2_half:
  assumes "- pi < a" and "a \<le> pi"
  shows "2 * atan2 (sin (a / 2)) (cos (a / 2)) = a"
proof (cases "a = pi")
  case True
  then show ?thesis by (simp add: atan2_def)
next
  case False
  with assms have r: "- (pi / 2) < a / 2" "a / 2 < pi / 2" by simp_all
  then have c: "0 < cos (a / 2)" by (rule cos_gt_zero_pi)
  have "arctan (sin (a / 2) / cos (a / 2)) = a / 2"
    using arctan_tan[OF r] by (simp add: tan_def)
  with c show ?thesis by (simp add: atan2_def)
qed

lemma heading_of_yaw_quaternion:
  "2 * atan2 (q_z (createQuaternionMsgFromYaw (atan2 y x))) (q_w (createQuaternionMsgFromYaw (atan2 y x)))
     = atan2 y x"
  using atan2_range[of y x] by (simp add: createQuaternionMsgFromYaw_def setRPY_def twice_atan2_half)

text \<open>
  The clamping block by itself. A goal at most 20 units from the robot is kept as it is. A
  goal further away is moved to 20 units from the robot in the direction of the goal, at
  the goal's height and with the goal's header, and its orientation is the yaw quaternion
  of \<open>atan2 (Gy - Ry) (Gx - Rx)\<close>, which is also the heading read back from it.
\<close>

lemma clampGoal_cases:
  "(distanceBetweenPoses goal robot_pose \<le> 20 \<longrightarrow> clampGoal robot_pose goal = goal)
   \<and> (distanceBetweenPoses goal robot_pose > 20 \<longrightarrow>
        p_x (position (pose (clampGoal robot_pose goal))) =
          p_x (position (pose robot_pose))
            + 20 * ((p_x (position (pose goal)) - p_x (position (pose robot_pose)))
                     / distanceBetweenPoses goal robot_pose)
      \<and> p_y (position (pose (clampGoal robot_pose goal))) =
          p_y (position (pose robot_pose))
            + 20 * ((p_y (position (pose goal)) - p_y (position (pose robot_pose)))
                     / distanceBetweenPoses goal robot_pose)
      \<and> p_z (position (pose (clampGoal robot_pose goal))) = p_z (position (pose goal))
      \<and> header (clampGoal robot_pose goal) = header goal
      \<and> orientation (pose (clampGoal robot_pose goal)) =
          createQuaternionMsgFromYaw
            (atan2 (p_y (position (pose goal)) - p_y (position (pose robot_pose)))
                   (p_x (position (pose goal)) - p_x (position (pose robot_pose))))
      \<and> 2 * atan2 (q_z (orientation (pose (clampGoal robot_pose goal))))
                   (q_w (orientation (pose (clampGoal robot_pose goal)))) =
          atan2 (p_y (position (pose goal)) - p_y (position (pose robot_pose)))
                (p_x (position (pose goal)) - p_x (position (pose robot_pose))))"
  by (simp add: clampGoal_def distanceBetweenPoses_def maximum_planning_distance_def Let_def
        heading_of_yaw_quaternion)

lemma sqrt_10000: "sqrt 10000 = 100"
  using real_sqrt_abs2[of 100] by simp

lemma clampGoal_example:
  "distanceBetweenPoses (pose_at 100 0 0) (pose_at 0 0 1) > 20
   \<and> p_x (position (pose (clampGoal (pose_at 0 0 1) (pose_at 100 0 0)))) = 20
   \<and> p_y (position (pose (clampGoal (pose_at 0 0 1) (pose_at 100 0 0)))) = 0
   \<and> 2 * atan2 (q_z (orientation (pose (clampGoal (pose_at 0 0 1) (pose_at 100 0 0)))))
                (q_w (orientation (pose (clampGoal (pose_at 0 0 1) (pose_at 100 0 0))))) = 0
   \<and> distanceBetweenPoses (pose_at 1 0 0) (pose_at 0 0 1) \<le> 20
   \<and> clampGoal (pose_at 0 0 1) (pose_at 1 0 0) = pose_at 1 0 0"
proof -
  have d: "distanceBetweenPoses (pose_at 100 0 0) (pose_at 0 0 1) = 100"
    by (simp add: distanceBetweenPoses_def pose_at_def sqrt_10000)
  have d1: "distanceBetweenPoses (pose_at 1 0 0) (pose_at 0 0 1) = 1"
    by (simp add: distanceBetweenPoses_def pose_at_def)
  have a: "atan2 0 100 = 0" by (simp add: atan2_def)
  have c: "p_x (position (pose (pose_at x y t))) = x" "p_y (position (pose (pose_at x y t))) = y" for x y t
    by (simp_all add: pose_at_def)
  show ?thesis
    using clampGoal_cases [of "pose_at 100 0 0" "pose_at 0 0 1"]
      clampGoal_cases [of "pose_at 1 0 0" "pose_at 0 0 1"]
    by (simp add: d d1 c a createQuaternionMsgFromYaw_def setRPY_def atan2_def)
qed



section \<open>Properties of the smoothing passes\<close>

lemma length_fold_snoc: "length (fold (\<lambda>i pl. pl @ [g i]) js pl) = length pl + length js"
  by (induction js arbitrary: pl) simp_all

lemma length_fold_update: "length (fold (\<lambda>i pl. pl[i := h i pl]) js pl) = length pl"
  by (induction js arbitrary: pl) simp_all

lemma length_mainPass: "length (mainPass sw rough_plan plan) = length plan + length rough_plan"
  by (simp add: mainPass_def length_fold_snoc)

lemma length_tailPass:
  "length (tailPass sw rough_plan plan) = length plan + length (tailIndices (length rough_plan) sw)"
  by (simp add: tailPass_def length_fold_snoc)

lemma length_overwriteOrientation: "length (overwriteOrientation plan) = length plan"
  unfolding overwriteOrientation_def by (rule length_fold_update)

lemma length_smoothPlan:
  "length (smoothPlan sw rough_plan) = length rough_plan + length (tailIndices (length rough_plan) sw)"
  by (simp add: smoothPlan_def length_overwriteOrientation length_tailPass length_mainPass)

lemma tailIndices_in_range:
  assumes "1 \<le> sw" and "sw \<le> int n" and "n < 2 ^ 31"
  shows "tailIndices n sw = [n - nat sw..<n]"
proof -
  have "- (2 ^ 31) \<le> int n - sw" "int n - sw < 2 ^ 31" using assms by simp_all
  then have "sint (word_of_int (int n - sw) :: 32 word) = int n - sw"
    unfolding sint_sbintrunc' by (simp add: signed_take_bit_int_eq_self)
  then show ?thesis using assms by (simp add: tailIndices_def tailFirst_def nat_diff_distrib)
qed

lemma tailIndices_short_path:
  assumes "int n < sw" and "sw < 2 ^ 31" and "n < 2 ^ 31"
  shows "tailIndices n sw = []"
proof -
  have "- (2 ^ 31) \<le> int n - sw" "int n - sw < 0" using assms by simp_all
  then have "sint (word_of_int (int n - sw) :: 32 word) = int n - sw"
    unfolding sint_sbintrunc' by (simp add: signed_take_bit_int_eq_self)
  then show ?thesis using assms by (simp add: tailIndices_def tailFirst_def)
qed


text \<open>
  So a path of \<open>n\<close> poses with a window \<open>sw\<close> between \<open>1\<close> and \<open>n\<close> gives a plan of
  \<open>n + sw\<close> poses, and a path shorter than the window gives a plan of \<open>n\<close> poses to which
  the second loop has added nothing.
\<close>

lemma length_smoothPlan_in_range:
  assumes "1 \<le> sw" and "sw \<le> int (length rough_plan)" and "length rough_plan < 2 ^ 31"
  shows "length (smoothPlan sw rough_plan) = length rough_plan + nat sw"
  using assms by (simp add: length_smoothPlan tailIndices_in_range)

lemma length_smoothPlan_short_path:
  assumes "int (length rough_plan) < sw" and "sw < 2 ^ 31" and "length rough_plan < 2 ^ 31"
  shows "length (smoothPlan sw rough_plan) = length rough_plan"
  using assms by (simp add: length_smoothPlan tailIndices_short_path)

lemma upt3: "[0..<3] = [0, 1, 2]" "[2..<3] = [2]"
  by (simp_all add: upt_rec)

lemma tf31: "tailFirst (Suc (Suc (Suc 0))) 1 = 2" by (simp add: tailFirst_def)
lemma tf320: "tailFirst (Suc (Suc (Suc 0))) 20 = -17" by (simp add: tailFirst_def)

text \<open>
  Two evaluations. For three poses at \<open>x = 0, 1, 2\<close> and window \<open>1\<close> the plan has four
  poses: the three of the first pass followed by the one pose of the second pass. For the
  same poses and window \<open>20\<close> the second pass does not run, and the plan is the first
  pass's three means.
\<close>

lemma smoothPlan_examples:
  "xs_of (smoothPlan 1 [pose_at 0 0 0, pose_at 1 0 0, pose_at 2 0 0]) = [1 / 2, 1, 3 / 2, 2]
   \<and> xs_of (smoothPlan 20 [pose_at 0 0 0, pose_at 1 0 0, pose_at 2 0 0]) = [1, 1, 1]"
  by (simp add: xs_of_def smoothPlan_def overwriteOrientation_def tailPass_def mainPass_def
        tailIndices_def tf31 tf320 mainWindow_def windowMean_def pose_at_def upt3 upto_rec1 Let_def)

section \<open>The calls and the result of a cycle\<close>

lemma setStartState_calls:
  assumes "setStartState P w e start th = (ok, P1)"
  shows "\<exists>cs. P1 = P\<lparr>calls := calls P @ cs\<rparr> \<and> (\<forall>c\<in>set cs. \<not> is_notification c \<and> c \<noteq> replan)"
proof (cases "r_SetStart e")
  case None
  with assms have "P1 = P\<lparr>calls := calls P @ [SetStart (p_x (position (pose start)) - getOriginX w)
                         (p_y (position (pose start)) - getOriginY w) th]\<rparr>"
    by (simp add: setStartState_def called_def)
  then show ?thesis by (intro exI conjI, assumption) (simp add: is_notification_def)
next
  case (Some ret)
  show ?thesis
  proof (cases "ret < 0")
    case True
    with Some assms have "P1 = P\<lparr>calls := calls P @ [SetStart (p_x (position (pose start)) - getOriginX w)
                         (p_y (position (pose start)) - getOriginY w) th]\<rparr>"
      by (simp add: setStartState_def called_def)
    then show ?thesis by (intro exI conjI, assumption) (simp add: is_notification_def)
  next
    case False
    with Some assms have "P1 = P\<lparr>calls := calls P @ [SetStart (p_x (position (pose start)) - getOriginX w)
                         (p_y (position (pose start)) - getOriginY w) th, set_start ret]\<rparr>"
      by (auto simp: setStartState_def called_def Let_def split: option.splits)
    then show ?thesis by (intro exI conjI, assumption) (simp add: is_notification_def)
  qed
qed

lemma setGoalState_calls:
  assumes "setGoalState P w e goal th = (ok, P1)"
  shows "\<exists>cs. P1 = P\<lparr>calls := calls P @ cs\<rparr> \<and> (\<forall>c\<in>set cs. \<not> is_notification c \<and> c \<noteq> replan)"
proof (cases "r_SetGoal e")
  case None
  with assms have "P1 = P\<lparr>calls := calls P @ [SetGoal (p_x (position (pose goal)) - getOriginX w)
                         (p_y (position (pose goal)) - getOriginY w) th]\<rparr>"
    by (simp add: setGoalState_def called_def)
  then show ?thesis by (intro exI conjI, assumption) (simp add: is_notification_def)
next
  case (Some ret)
  show ?thesis
  proof (cases "ret < 0")
    case True
    with Some assms have "P1 = P\<lparr>calls := calls P @ [SetGoal (p_x (position (pose goal)) - getOriginX w)
                         (p_y (position (pose goal)) - getOriginY w) th]\<rparr>"
      by (simp add: setGoalState_def called_def)
    then show ?thesis by (intro exI conjI, assumption) (simp add: is_notification_def)
  next
    case False
    with Some assms have "P1 = P\<lparr>calls := calls P @ [SetGoal (p_x (position (pose goal)) - getOriginX w)
                         (p_y (position (pose goal)) - getOriginY w) th, set_goal ret]\<rparr>"
      by (auto simp: setGoalState_def called_def Let_def split: option.splits)
    then show ?thesis by (intro exI conjI, assumption) (simp add: is_notification_def)
  qed
qed

lemma notifyChanges_calls:
  assumes "notifyChanges P e cells count = (ok, P1)"
  shows "\<exists>cs. P1 = P\<lparr>calls := calls P @ cs\<rparr> \<and> replan \<notin> set cs
     \<and> (ok \<longrightarrow> cs = (if cells \<noteq> [] then [costs_changed cells] else [])
                    @ (if count > force_scratch_limit P then [force_planning_from_scratch] else []))"
proof -
  let ?a = "if cells \<noteq> [] then [costs_changed cells] else []"
  let ?b = "if count > force_scratch_limit P then [force_planning_from_scratch] else []"
  show ?thesis
  proof (cases "cells \<noteq> [] \<and> r_costs_changed e = None")
    case True
    with assms have "P1 = P\<lparr>calls := calls P @ [costs_changed cells]\<rparr>" "\<not> ok"
      by (auto simp: notifyChanges_def called_def)
    then show ?thesis by (intro exI[of _ "[costs_changed cells]"]) simp
  next
    case False
    with assms have "P1 = P\<lparr>calls := calls P @ (?a @ ?b)\<rparr>"
      by (auto simp: notifyChanges_def called_def Let_def split: if_splits)
    then show ?thesis by (intro exI[of _ "?a @ ?b"]) simp
  qed
qed

lemma runSearch_calls:
  assumes "runSearch P w e start th = (ok, pl, P1)"
  shows "\<exists>post. P1 = P\<lparr>calls := calls P @ [set_initialsolution_eps, set_search_mode False, replan] @ post\<rparr>
     \<and> (\<forall>c\<in>set post. \<not> is_notification c)"
proof (cases "r_replan e")
  case None
  with assms have "P1 = P\<lparr>calls := calls P @ [set_initialsolution_eps, set_search_mode False, replan] @ []\<rparr>"
    by (simp add: runSearch_def called_def)
  then show ?thesis by (intro exI conjI, assumption) simp
next
  case (Some r)
  obtain ret ids cost where r: "r = (ret, ids, cost)" by (cases r)
  show ?thesis
  proof (cases "ret = 0")
    case True
    with Some r assms have "P1 = P\<lparr>calls := calls P @ [set_initialsolution_eps, set_search_mode False, replan]
        @ [publish_stats cost 0]\<rparr>"
      by (simp add: runSearch_def called_def)
    then show ?thesis by (intro exI conjI, assumption) (simp add: is_notification_def)
  next
    case False
    show ?thesis
    proof (cases "r_ConvertStateIDPathintoXYThetaPath e")
      case None
      with False Some r assms have "P1 = P\<lparr>calls := calls P @ [set_initialsolution_eps, set_search_mode False, replan]
        @ [ConvertStateIDPathintoXYThetaPath ids]\<rparr>"
        by (simp add: runSearch_def called_def)
      then show ?thesis by (intro exI conjI, assumption) (simp add: is_notification_def)
    next
      case (Some converted)
      with False \<open>r_replan e = Some r\<close> r assms
      have "\<exists>a b c. P1 = P\<lparr>calls := calls P @ [set_initialsolution_eps, set_search_mode False, replan]
        @ [ConvertStateIDPathintoXYThetaPath ids, publish_plan a, publish_rough_plan b, publish_stats cost c]\<rparr>"
        by (auto simp: runSearch_def called_def Let_def)
      then obtain a b c where "P1 = P\<lparr>calls := calls P @ [set_initialsolution_eps, set_search_mode False, replan]
        @ [ConvertStateIDPathintoXYThetaPath ids, publish_plan a, publish_rough_plan b, publish_stats cost c]\<rparr>"
        by blast
      then show ?thesis by (intro exI conjI, assumption) (simp add: is_notification_def)
    qed
  qed
qed

lemma syncCosts_fold:
  "syncCosts w P = fold (\<lambda>c. syncCell w (fst c) (snd c))
      (List.product [0..<getSizeInCellsX w] [0..<getSizeInCellsY w])
      \<lparr>s_planner = P, changedcellsV = [], allCount = 0, offOnCount = 0, onOffCount = 0\<rparr>"
  by (simp add: syncCosts_def fold_product)

lemma syncCosts_changedcellsV:
  "changedcellsV (syncCosts w P) =
     filter (\<lambda>c. env P (fst c) (snd c) \<noteq> costMapCostToSBPLCost P (getCost w (fst c) (snd c)))
       (List.product [0..<getSizeInCellsX w] [0..<getSizeInCellsY w])"
proof -
  have d: "distinct (List.product [0..<getSizeInCellsX w] [0..<getSizeInCellsY w])"
    by (simp add: distinct_product)
  show ?thesis
    unfolding syncCosts_fold
    using syncCells_changedcellsV[OF d, of w
        "\<lparr>s_planner = P, changedcellsV = [], allCount = 0, offOnCount = 0, onOffCount = 0\<rparr>"]
    by simp
qed

lemma syncCosts_allCount: "allCount (syncCosts w P) = int (length (changedcellsV (syncCosts w P)))"
  unfolding syncCosts_fold by (subst syncCells_allCount) simp

lemma syncCosts_frame: "\<exists>g. s_planner (syncCosts w P) = P\<lparr>env := g\<rparr>"
proof -
  have "s_planner (syncCosts w P) = P\<lparr>env := env (s_planner (syncCosts w P))\<rparr>"
    unfolding syncCosts_fold by (subst syncCells_frame) simp
  then show ?thesis by blast
qed

lemma costMapCostToSBPLCost_calls [simp]:
  "costMapCostToSBPLCost (P\<lparr>calls := cs\<rparr>) = costMapCostToSBPLCost P"
  by (rule costMapCostToSBPLCost_cong) simp_all

lemma syncCosts_calls:
  "changedcellsV (syncCosts w (P\<lparr>calls := cs\<rparr>)) = changedcellsV (syncCosts w P)"
  "allCount (syncCosts w (P\<lparr>calls := cs\<rparr>)) = allCount (syncCosts w P)"
  by (simp_all add: syncCosts_allCount syncCosts_changedcellsV)

lemma tailPass_mainPass_nonempty:
  "rough_plan \<noteq> [] \<Longrightarrow> smoothPlan sw rough_plan \<noteq> []"
  using length_smoothPlan[of sw rough_plan] by (cases "smoothPlan sw rough_plan") auto

lemma runSearch_plan:
  assumes "runSearch P w e start th = (ok, pl, P1)"
  shows "(\<not> ok \<longrightarrow> pl = []) \<and> (ok \<longrightarrow> pl \<noteq> [])"
  using assms
  by (auto simp: runSearch_def Let_def tailPass_mainPass_nonempty split: option.splits if_splits)

lemma runSearch_empty_path:
  assumes "runSearch P w e start th = (True, pl, P1)"
    and "r_ConvertStateIDPathintoXYThetaPath e = Some []"
  shows "pl = smoothPlan (smooth_window P) [roughPose w start (startPoint w start th)]
    \<and> (\<exists>post. calls P1 = calls P @ [set_initialsolution_eps, set_search_mode False, replan] @ post
          \<and> publish_rough_plan [roughPose w start (startPoint w start th)] \<in> set post)"
  using assms
  by (auto simp: runSearch_def Let_def called_def split: option.splits if_splits)

lemma planCycle_cases:
  assumes "planCycle P w e start goal = (ok, pl, P')"
  shows "\<exists>g cs. P' = P\<lparr>env := g, calls := calls P @ cs\<rparr> \<and>
     ((replan \<notin> set cs \<and> \<not> ok \<and> pl = [])
      \<or> ((\<exists>pre post. cs = pre
              @ (if changedcellsV (syncCosts w P) \<noteq> []
                 then [costs_changed (changedcellsV (syncCosts w P))] else [])
              @ (if allCount (syncCosts w P) > force_scratch_limit P
                 then [force_planning_from_scratch] else [])
              @ [set_initialsolution_eps, set_search_mode False, replan] @ post
            \<and> (\<forall>c\<in>set pre. \<not> is_notification c \<and> c \<noteq> replan)
            \<and> (\<forall>c\<in>set post. \<not> is_notification c))
          \<and> (\<not> ok \<longrightarrow> pl = []) \<and> (ok \<longrightarrow> pl \<noteq> [])
          \<and> (ok \<longrightarrow> r_ConvertStateIDPathintoXYThetaPath e = Some [] \<longrightarrow>
                pl = smoothPlan (smooth_window P) [roughPose w start (startPoint w start
                       (2 * atan2 (q_z (orientation (pose start))) (q_w (orientation (pose start)))))]
              \<and> publish_rough_plan [roughPose w start (startPoint w start
                       (2 * atan2 (q_z (orientation (pose start))) (q_w (orientation (pose start)))))]
                  \<in> set cs)))"
proof -
  define ths where "ths = 2 * atan2 (q_z (orientation (pose start))) (q_w (orientation (pose start)))"
  define thg where "thg = 2 * atan2 (q_z (orientation (pose goal))) (q_w (orientation (pose goal)))"
  obtain ok1 P1 where s1: "setStartState P w e start ths = (ok1, P1)" by fastforce
  from setStartState_calls[OF s1] obtain c1 where
    P1: "P1 = P\<lparr>calls := calls P @ c1\<rparr>" and n1: "\<forall>c\<in>set c1. \<not> is_notification c \<and> c \<noteq> replan"
    by blast
  show ?thesis
  proof (cases ok1)
    case False
    with assms s1 have "ok = False" "pl = []" "P' = P1"
      by (simp_all add: planCycle_def Let_def ths_def[symmetric])
    with P1 n1 show ?thesis
      by (intro exI[of _ "env P"] exI[of _ c1] conjI disjI1) auto
  next
    case ok1: True
    obtain ok2 P2 where s2: "setGoalState P1 w e goal thg = (ok2, P2)" by fastforce
    from setGoalState_calls[OF s2] obtain c2 where
      P2': "P2 = P1\<lparr>calls := calls P1 @ c2\<rparr>" and n2: "\<forall>c\<in>set c2. \<not> is_notification c \<and> c \<noteq> replan"
      by blast
    from P2' P1 have P2: "P2 = P\<lparr>calls := calls P @ c1 @ c2\<rparr>" by simp
    show ?thesis
    proof (cases ok2)
      case False
      with assms s1 s2 ok1 have "ok = False" "pl = []" "P' = P2"
        by (simp_all add: planCycle_def Let_def ths_def[symmetric] thg_def[symmetric])
      with P2 n1 n2 show ?thesis
        by (intro exI[of _ "env P"] exI[of _ "c1 @ c2"] conjI disjI1) auto
    next
      case ok2: True
      define S where "S = syncCosts w P2"
      obtain g where Sg: "s_planner S = P2\<lparr>env := g\<rparr>"
        using syncCosts_frame[of w P2] unfolding S_def by blast
      have Sc: "changedcellsV S = changedcellsV (syncCosts w P)"
        and Sa: "allCount S = allCount (syncCosts w P)"
        unfolding S_def P2 by (simp_all add: syncCosts_calls)
      obtain ok3 P3 where s3: "notifyChanges (s_planner S) e (changedcellsV S) (allCount S) = (ok3, P3)"
        by fastforce
      from notifyChanges_calls[OF s3] obtain c3 where
        P3': "P3 = (s_planner S)\<lparr>calls := calls (s_planner S) @ c3\<rparr>" and n3: "replan \<notin> set c3"
        and c3: "ok3 \<longrightarrow> c3 = (if changedcellsV S \<noteq> [] then [costs_changed (changedcellsV S)] else [])
                    @ (if allCount S > force_scratch_limit (s_planner S)
                       then [force_planning_from_scratch] else [])"
        by blast
      from P3' Sg P2 have P3: "P3 = P\<lparr>env := g, calls := calls P @ c1 @ c2 @ c3\<rparr>" by simp
      have lim: "force_scratch_limit (s_planner S) = force_scratch_limit P"
        and sw: "smooth_window P3 = smooth_window P"
        using Sg P2 P3 by simp_all
      show ?thesis
      proof (cases ok3)
        case False
        with assms s1 s2 s3 ok1 ok2 have "ok = False" "pl = []" "P' = P3"
          by (simp_all add: planCycle_def Let_def ths_def[symmetric] thg_def[symmetric] S_def[symmetric])
        with P3 n1 n2 n3 show ?thesis
          by (intro exI[of _ g] exI[of _ "c1 @ c2 @ c3"] conjI disjI1) auto
      next
        case ok3: True
        with assms s1 s2 s3 ok1 ok2 have s4: "runSearch P3 w e start ths = (ok, pl, P')"
          by (simp add: planCycle_def Let_def ths_def[symmetric] thg_def[symmetric] S_def[symmetric])
        from runSearch_calls[OF s4] obtain post where
          P4: "P' = P3\<lparr>calls := calls P3 @ [set_initialsolution_eps, set_search_mode False, replan] @ post\<rparr>"
          and n4: "\<forall>c\<in>set post. \<not> is_notification c"
          by blast
        let ?a = "if changedcellsV (syncCosts w P) \<noteq> []
                 then [costs_changed (changedcellsV (syncCosts w P))] else []"
        let ?b = "if allCount (syncCosts w P) > force_scratch_limit P
                 then [force_planning_from_scratch] else []"
        let ?cs = "(c1 @ c2) @ ?a @ ?b @ [set_initialsolution_eps, set_search_mode False, replan] @ post"
        from c3 ok3 Sc Sa lim have c3': "c3 = ?a @ ?b" by simp
        have P': "P' = P\<lparr>env := g, calls := calls P @ ?cs\<rparr>"
          unfolding P4 P3 c3' by simp
        have pre: "\<forall>c\<in>set (c1 @ c2). \<not> is_notification c \<and> c \<noteq> replan" using n1 n2 by auto
        have e: "ok \<longrightarrow> r_ConvertStateIDPathintoXYThetaPath e = Some [] \<longrightarrow>
                pl = smoothPlan (smooth_window P) [roughPose w start (startPoint w start ths)]
              \<and> publish_rough_plan [roughPose w start (startPoint w start ths)] \<in> set ?cs"
        proof (intro impI)
          assume "ok" and em: "r_ConvertStateIDPathintoXYThetaPath e = Some []"
          with s4 have s4': "runSearch P3 w e start ths = (True, pl, P')" by simp
          from runSearch_empty_path[OF s4' em] sw obtain post' where
            pl: "pl = smoothPlan (smooth_window P) [roughPose w start (startPoint w start ths)]"
            and c: "calls P' = calls P3 @ [set_initialsolution_eps, set_search_mode False, replan] @ post'"
            and m: "publish_rough_plan [roughPose w start (startPoint w start ths)] \<in> set post'"
            by auto
          from c P4 have "post' = post" by simp
          with pl m show "pl = smoothPlan (smooth_window P) [roughPose w start (startPoint w start ths)]
              \<and> publish_rough_plan [roughPose w start (startPoint w start ths)] \<in> set ?cs"
            by simp
        qed
        have "(\<exists>pre post. ?cs = pre @ ?a @ ?b @ [set_initialsolution_eps, set_search_mode False, replan] @ post
            \<and> (\<forall>c\<in>set pre. \<not> is_notification c \<and> c \<noteq> replan)
            \<and> (\<forall>c\<in>set post. \<not> is_notification c))"
          using pre n4 by (intro exI[of _ "c1 @ c2"] exI[of _ post] conjI refl)
        with runSearch_plan[OF s4] e
        have B: "(\<exists>pre post. ?cs = pre @ ?a @ ?b @ [set_initialsolution_eps, set_search_mode False, replan] @ post
            \<and> (\<forall>c\<in>set pre. \<not> is_notification c \<and> c \<noteq> replan)
            \<and> (\<forall>c\<in>set post. \<not> is_notification c))
          \<and> (\<not> ok \<longrightarrow> pl = []) \<and> (ok \<longrightarrow> pl \<noteq> [])
          \<and> (ok \<longrightarrow> r_ConvertStateIDPathintoXYThetaPath e = Some [] \<longrightarrow>
                pl = smoothPlan (smooth_window P) [roughPose w start (startPoint w start ths)]
              \<and> publish_rough_plan [roughPose w start (startPoint w start ths)] \<in> set ?cs)"
          by (intro conjI) (assumption | erule conjunct1 | erule conjunct2)+
        show ?thesis
          apply (rule exI[of _ g])
          apply (rule exI[of _ ?cs])
          apply (rule conjI)
           apply (rule P')
          apply (rule disjI2)
          apply (rule B[unfolded ths_def])
          done
      qed
    qed
  qed
qed

section \<open>Notifications of the synchronization\<close>

lemma upt2: "[0..<2] = [0, 1]" "[0..<1] = [0]"
  by (simp_all add: upt_rec)

lemma atan2_0_1: "atan2 0 1 = 0"
  by (simp add: atan2_def)

lemma ex_syncCosts:
  "changedcellsV (syncCosts ex_world ex_planner) = [(1, 0)]"
  "allCount (syncCosts ex_world ex_planner) = 1"
  by (simp_all add: syncCosts_allCount syncCosts_changedcellsV ex_world_def ex_planner_def upt2
        costMapCostToSBPLCost_def sentinel_defs)

lemma ex_syncCosts_over:
  "changedcellsV (syncCosts ex_world ex_over_limit) = [(1, 0)]"
  "allCount (syncCosts ex_world ex_over_limit) = 1"
  by (simp_all add: syncCosts_allCount syncCosts_changedcellsV ex_world_def ex_planner_def upt2
        costMapCostToSBPLCost_def sentinel_defs ex_over_limit_def)

lemma ex_setStart:
  "setStartState P ex_world ex_engine (pose_at 0 0 1) 0 = (True, called (set_start 0) (called (SetStart 0 0 0) P))"
  by (simp add: setStartState_def ex_world_def ex_engine_def pose_at_def Let_def)

lemma ex_setGoal:
  "setGoalState P ex_world ex_engine (pose_at 1 0 0) 0 = (True, called (set_goal 1) (called (SetGoal 1 0 0) P))"
  by (simp add: setGoalState_def ex_world_def ex_engine_def pose_at_def Let_def)

lemma ex_theta: "2 * atan2 (q_z (orientation (pose (pose_at x y t)))) (q_w (orientation (pose (pose_at x y t)))) = 0"
  by (simp add: pose_at_def atan2_0_1)

lemma syncCosts_fields:
  "calls (s_planner (syncCosts w P)) = calls P"
  "force_scratch_limit (s_planner (syncCosts w P)) = force_scratch_limit P"
  "smooth_window (s_planner (syncCosts w P)) = smooth_window P"
  using syncCosts_frame[of w P] by auto

text \<open>
  Claim C4 as stated fails. With a scratch limit of \<open>0\<close> and one changed cell the count
  is over the limit, and still the changed cell is handed to \<^verbatim>\<open>costs_changed\<close>,
  before the order to plan from scratch.
\<close>

theorem notification_and_scratch_example:
  "force_scratch_limit ex_over_limit < allCount (syncCosts ex_world ex_over_limit)
   \<and> changedcellsV (syncCosts ex_world ex_over_limit) = [(1, 0)]
   \<and> take 9 (calls (snd (snd ex_cycle_over_limit))) =
        [SetStart 0 0 0, set_start 0, SetGoal 1 0 0, set_goal 1, costs_changed [(1, 0)],
         force_planning_from_scratch, set_initialsolution_eps, set_search_mode False, replan]"
proof -
  have l: "force_scratch_limit ex_over_limit = 0" "calls ex_over_limit = []"
    by (simp_all add: ex_over_limit_def ex_planner_def)
  have e: "r_costs_changed ex_engine = Some ()" "r_force_planning_from_scratch ex_engine = Some ()"
    "r_replan ex_engine = Some (1, [], 0)" "r_ConvertStateIDPathintoXYThetaPath ex_engine = Some []"
    by (simp_all add: ex_engine_def)
  have c: "changedcellsV (syncCosts ex_world (ex_over_limit\<lparr>calls := cs\<rparr>)) = [(1, 0)]"
    "allCount (syncCosts ex_world (ex_over_limit\<lparr>calls := cs\<rparr>)) = 1" for cs
    by (simp_all add: syncCosts_calls ex_syncCosts_over)
  show ?thesis
    by (simp add: ex_syncCosts_over l ex_cycle_over_limit_def planCycle_def ex_theta ex_setStart
          ex_setGoal Let_def c syncCosts_fields notifyChanges_def runSearch_def e called_def)
qed

lemma seedCosts_frame: "\<exists>g. seedCosts w P = P\<lparr>env := g\<rparr>"
proof -
  have inner: "\<exists>g. fold (\<lambda>iy Q. UpdateCost ix iy (costMapCostToSBPLCost Q (getCost w ix iy)) Q) ys P
                  = P\<lparr>env := g\<rparr>" for ix ys P
  proof (induction ys arbitrary: P)
    case Nil
    show ?case by (rule exI[of _ "env P"]) simp
  next
    case (Cons y ys)
    from Cons[of "UpdateCost ix y (costMapCostToSBPLCost P (getCost w ix y)) P"]
    show ?case by (auto simp: UpdateCost_def)
  qed
  have outer: "\<exists>g. fold (\<lambda>ix. fold (\<lambda>iy Q. UpdateCost ix iy (costMapCostToSBPLCost Q (getCost w ix iy)) Q) ys) xs P
                  = P\<lparr>env := g\<rparr>" for xs ys P
  proof (induction xs arbitrary: P)
    case Nil
    show ?case by (rule exI[of _ "env P"]) simp
  next
    case (Cons x xs)
    obtain g where g: "fold (\<lambda>iy Q. UpdateCost x iy (costMapCostToSBPLCost Q (getCost w x iy)) Q) ys P
                  = P\<lparr>env := g\<rparr>"
      using inner by blast
    from Cons[of "P\<lparr>env := g\<rparr>"] g show ?case by auto
  qed
  show ?thesis unfolding seedCosts_def by (rule outer)
qed

lemma seedCosts_fields:
  "calls (seedCosts w P) = calls P"
  "previous_goal (seedCosts w P) = previous_goal P"
  "previous_plan (seedCosts w P) = previous_plan P"
  "robot_pose_when_plan_was_created (seedCosts w P) = robot_pose_when_plan_was_created P"
  "planner_type (seedCosts w P) = planner_type P"
  using seedCosts_frame[of w P] by auto

lemma initialize_frame:
  assumes "initialize P w e = Inr P'"
  shows "previous_goal P' = previous_goal P \<and> previous_plan P' = previous_plan P
    \<and> robot_pose_when_plan_was_created P' = robot_pose_when_plan_was_created P
    \<and> (\<exists>cs. calls P' = calls P @ cs)"
  using assms
  by (auto simp: initialize_def Let_def called_def seedCosts_fields
        split: if_splits sum.splits option.splits)

lemma makePlanInternal_result:
  assumes "makePlanInternal P w e start goal plan = Inr (ok, pl, P')"
  shows "previous_goal P' = previous_goal P \<and> (\<not> ok \<longrightarrow> pl = []) \<and> (ok \<longrightarrow> pl \<noteq> [])"
proof (cases "initialized P")
  case False
  with assms show ?thesis by (simp add: makePlanInternal_def)
next
  case True
  with assms obtain P1 where i: "(if do_init P w then initialize (P\<lparr>initialized := False\<rparr>) w e else Inr P) = Inr P1"
    and c: "planCycle P1 w e start goal = (ok, pl, P')"
    by (auto simp: makePlanInternal_def split: sum.splits)
  from i have g: "previous_goal P1 = previous_goal P"
    using initialize_frame[of "P\<lparr>initialized := False\<rparr>" w e P1] by (auto split: if_splits)
  from planCycle_cases[OF c] g show ?thesis by auto
qed

lemma new_calls_append [simp]: "new_calls P (P\<lparr>env := g, calls := calls P @ cs\<rparr>) = cs"
  by (simp add: new_calls_def)

lemma filter_notification_none:
  "\<forall>c\<in>set cs. \<not> is_notification c \<and> c \<noteq> replan \<Longrightarrow> filter is_notification cs = []"
  by (simp add: filter_empty_conv)

text \<open>
  The notifications of a cycle that reaches the search, before \<^verbatim>\<open>replan\<close> and in
  the whole cycle.
\<close>

lemma notifications_when_searched:
  assumes "sbpl_cost_multiplier P \<noteq> 0"
    and "planCycle P w e start goal = (ok, plan, P')"
    and "replan \<in> set (new_calls P P')"
  shows "filter is_notification (takeWhile (\<lambda>c. c \<noteq> replan) (new_calls P P')) =
           (if changedcellsV (syncCosts w P) \<noteq> []
            then [costs_changed (changedcellsV (syncCosts w P))] else [])
           @ (if allCount (syncCosts w P) > force_scratch_limit P
              then [force_planning_from_scratch] else [])
    \<and> filter is_notification (new_calls P P') =
           (if changedcellsV (syncCosts w P) \<noteq> []
            then [costs_changed (changedcellsV (syncCosts w P))] else [])
           @ (if allCount (syncCosts w P) > force_scratch_limit P
              then [force_planning_from_scratch] else [])
    \<and> allCount (syncCosts w P) = int (length (changedcellsV (syncCosts w P)))"
proof -
  let ?a = "if changedcellsV (syncCosts w P) \<noteq> []
            then [costs_changed (changedcellsV (syncCosts w P))] else []"
  let ?b = "if allCount (syncCosts w P) > force_scratch_limit P
            then [force_planning_from_scratch] else []"
  from planCycle_cases[OF assms(2)] obtain g cs where
    P': "P' = P\<lparr>env := g, calls := calls P @ cs\<rparr>"
    and d: "(replan \<notin> set cs \<and> \<not> ok \<and> plan = [])
      \<or> (\<exists>pre post. cs = pre @ ?a @ ?b @ [set_initialsolution_eps, set_search_mode False, replan] @ post
            \<and> (\<forall>c\<in>set pre. \<not> is_notification c \<and> c \<noteq> replan)
            \<and> (\<forall>c\<in>set post. \<not> is_notification c))"
    by blast
  have n: "new_calls P P' = cs" unfolding P' by simp
  from assms(3) n d obtain pre post where
    cs: "cs = pre @ ?a @ ?b @ [set_initialsolution_eps, set_search_mode False, replan] @ post"
    and pre: "\<forall>c\<in>set pre. \<not> is_notification c \<and> c \<noteq> replan"
    and post: "\<forall>c\<in>set post. \<not> is_notification c"
    by auto
  have fa: "filter is_notification ?a = ?a" "filter is_notification ?b = ?b"
    by (simp_all add: is_notification_def)
  have fpre: "filter is_notification pre = []" using pre by (simp add: filter_empty_conv)
  have fpost: "filter is_notification post = []" using post by (simp add: filter_empty_conv)
  have nr: "\<forall>c\<in>set (pre @ ?a @ ?b @ [set_initialsolution_eps, set_search_mode False]). c \<noteq> replan"
    using pre by auto
  have "cs = (pre @ ?a @ ?b @ [set_initialsolution_eps, set_search_mode False]) @ replan # post"
    unfolding cs by simp
  then have tw: "takeWhile (\<lambda>c. c \<noteq> replan) cs = pre @ ?a @ ?b @ [set_initialsolution_eps, set_search_mode False]"
    using nr by (simp only: takeWhile_append2 takeWhile.simps) simp
  have f1: "filter is_notification (takeWhile (\<lambda>c. c \<noteq> replan) cs) = ?a @ ?b"
    unfolding tw using fa fpre by (simp add: is_notification_def)
  have f2: "filter is_notification cs = ?a @ ?b"
    unfolding cs using fa fpre fpost by (simp add: is_notification_def)
  show ?thesis unfolding n using f1 f2 syncCosts_allCount[of w P] by simp
qed

lemma ex_cycle_calls:
  "take 9 (calls (snd (snd ex_cycle))) =
        [SetStart 0 0 0, set_start 0, SetGoal 1 0 0, set_goal 1, costs_changed [(1, 0)],
         set_initialsolution_eps, set_search_mode False, replan,
         ConvertStateIDPathintoXYThetaPath []]"
proof -
  have l: "force_scratch_limit ex_planner = 500" "calls ex_planner = []"
    by (simp_all add: ex_planner_def)
  have e: "r_costs_changed ex_engine = Some ()" "r_force_planning_from_scratch ex_engine = Some ()"
    "r_replan ex_engine = Some (1, [], 0)" "r_ConvertStateIDPathintoXYThetaPath ex_engine = Some []"
    by (simp_all add: ex_engine_def)
  have c: "changedcellsV (syncCosts ex_world (ex_planner\<lparr>calls := cs\<rparr>)) = [(1, 0)]"
    "allCount (syncCosts ex_world (ex_planner\<lparr>calls := cs\<rparr>)) = 1" for cs
    by (simp_all add: syncCosts_calls ex_syncCosts)
  show ?thesis
    by (simp add: l ex_cycle_def planCycle_def ex_theta ex_setStart
          ex_setGoal Let_def c syncCosts_fields notifyChanges_def runSearch_def e called_def)
qed


lemma roughPose_startPoint:
  "position (pose (roughPose w start (startPoint w start th))) = position (pose start)"
  "orientation (pose (roughPose w start (startPoint w start th))) = setRPY 0 0 th"
  by (simp_all add: roughPose_def startPoint_def)

lemma not_must_make_plan_nonempty: "\<not> must_make_plan P robot_pose goal \<Longrightarrow> previous_plan P \<noteq> []"
  by (simp add: must_make_plan_def)

section \<open>The result of a successful cycle\<close>

text \<open>
  Claim C9. A successful \<^verbatim>\<open>makePlanInternal\<close> returns a plan that is not empty.
  When the converted lattice path is empty, the rough plan it publishes is the single pose
  made from the start point, which lies at the start's position and carries the start's
  heading, and the plan returned is the smoothing of that single pose. A successful
  \<^verbatim>\<open>makePlan\<close> returns a plan that is not empty as well.
\<close>

theorem successful_cycle_plan_nonempty:
  assumes "sbpl_cost_multiplier P \<noteq> 0"
  shows "(makePlanInternal P w e start goal plan = Inr (True, plan', P') \<longrightarrow>
            plan' \<noteq> []
          \<and> (r_ConvertStateIDPathintoXYThetaPath e = Some [] \<longrightarrow>
               plan' = smoothPlan (smooth_window P')
                 [roughPose w start (startPoint w start
                    (2 * atan2 (q_z (orientation (pose start))) (q_w (orientation (pose start)))))]
             \<and> publish_rough_plan
                 [roughPose w start (startPoint w start
                    (2 * atan2 (q_z (orientation (pose start))) (q_w (orientation (pose start)))))]
                 \<in> set (new_calls P P')
             \<and> position (pose (roughPose w start (startPoint w start
                    (2 * atan2 (q_z (orientation (pose start))) (q_w (orientation (pose start)))))))
                 = position (pose start)
             \<and> orientation (pose (roughPose w start (startPoint w start
                    (2 * atan2 (q_z (orientation (pose start))) (q_w (orientation (pose start)))))))
                 = setRPY 0 0 (2 * atan2 (q_z (orientation (pose start)))
                                        (q_w (orientation (pose start))))))
       \<and> (makePlan P w e start goal plan = Inr (True, plan', P') \<longrightarrow> plan' \<noteq> [])"
proof -
  have A: "plan' \<noteq> []" if m: "makePlanInternal P w e start goal plan = Inr (True, plan', P')"
    using makePlanInternal_result[OF m] by simp
  let ?th = "2 * atan2 (q_z (orientation (pose start))) (q_w (orientation (pose start)))"
  let ?r = "roughPose w start (startPoint w start ?th)"
  have B: "plan' = smoothPlan (smooth_window P') [?r] \<and> publish_rough_plan [?r] \<in> set (new_calls P P')
    \<and> position (pose ?r) = position (pose start) \<and> orientation (pose ?r) = setRPY 0 0 ?th"
    if m: "makePlanInternal P w e start goal plan = Inr (True, plan', P')"
    and em: "r_ConvertStateIDPathintoXYThetaPath e = Some []"
  proof -
  have ini: "initialized P" using m by (auto simp: makePlanInternal_def split: if_splits)
  with m obtain P1 where i: "(if do_init P w then initialize (P\<lparr>initialized := False\<rparr>) w e else Inr P) = Inr P1"
    and c: "planCycle P1 w e start goal = (True, plan', P')"
    by (auto simp: makePlanInternal_def split: sum.splits)
  from i obtain ics where ics: "calls P1 = calls P @ ics"
    using initialize_frame[of "P\<lparr>initialized := False\<rparr>" w e P1] by (auto split: if_splits)
  from planCycle_cases[OF c] em obtain g cs where
    P': "P' = P1\<lparr>env := g, calls := calls P1 @ cs\<rparr>"
    and pl: "plan' = smoothPlan (smooth_window P1) [?r]"
    and pub: "publish_rough_plan [?r] \<in> set cs"
    by auto
  have sw: "smooth_window P' = smooth_window P1" unfolding P' by simp
  have "new_calls P P' = ics @ cs" unfolding P' by (simp add: new_calls_def ics)
  with pub have "publish_rough_plan [?r] \<in> set (new_calls P P')" by simp
  with pl sw
  show ?thesis
    by (simp add: roughPose_startPoint)
  qed
  have C: "plan' \<noteq> []" if m: "makePlan P w e start goal plan = Inr (True, plan', P')"
  proof (cases "getRobotPose w")
    case None
    with m show ?thesis by (simp add: makePlan_def)
  next
    case (Some robot_pose)
    show ?thesis
    proof (cases "must_make_plan P robot_pose goal")
      case False
      with m Some have "plan' = previous_plan P" by (auto simp: makePlan_def)
      with not_must_make_plan_nonempty[OF False] show ?thesis by simp
    next
      case True
      with m Some obtain P2 where
        "makePlanInternal (P\<lparr>previous_goal := goal\<rparr>) w e start (clampGoal robot_pose goal) plan
           = Inr (True, plan', P2)"
        by (auto simp: makePlan_def Let_def split: sum.splits)
      from makePlanInternal_result[OF this] show ?thesis by simp
    qed
  qed
  from A B C show ?thesis by blast
qed

lemma ex_do_init: "\<not> do_init ex_planner ex_world"
  by (simp add: do_init_def ex_planner_def ex_world_def computeCircumscribedCost_def)

lemma ex_makePlanInternal:
  "makePlanInternal ex_planner ex_world ex_engine (pose_at 0 0 1) (pose_at 1 0 0) [] = Inr ex_cycle"
proof -
  have "initialized ex_planner" by (simp add: ex_planner_def)
  then show ?thesis by (simp add: makePlanInternal_def ex_do_init ex_cycle_def)
qed

lemma ex_cycle_plan:
  "fst ex_cycle = True"
  "fst (snd ex_cycle) = smoothPlan 20 [roughPose ex_world (pose_at 0 0 1) (startPoint ex_world (pose_at 0 0 1) 0)]"
proof -
  have l: "force_scratch_limit ex_planner = 500" "calls ex_planner = []" "smooth_window ex_planner = 20"
    by (simp_all add: ex_planner_def)
  have e: "r_costs_changed ex_engine = Some ()" "r_force_planning_from_scratch ex_engine = Some ()"
    "r_replan ex_engine = Some (1, [], 0)" "r_ConvertStateIDPathintoXYThetaPath ex_engine = Some []"
    by (simp_all add: ex_engine_def)
  have c: "changedcellsV (syncCosts ex_world (ex_planner\<lparr>calls := cs\<rparr>)) = [(1, 0)]"
    "allCount (syncCosts ex_world (ex_planner\<lparr>calls := cs\<rparr>)) = 1" for cs
    by (simp_all add: syncCosts_calls ex_syncCosts)
  show "fst ex_cycle = True"
    by (simp add: l ex_cycle_def planCycle_def ex_theta ex_setStart
          ex_setGoal Let_def c syncCosts_fields notifyChanges_def runSearch_def e called_def)
  show "fst (snd ex_cycle) = smoothPlan 20 [roughPose ex_world (pose_at 0 0 1) (startPoint ex_world (pose_at 0 0 1) 0)]"
    by (simp add: l ex_cycle_def planCycle_def ex_theta ex_setStart
          ex_setGoal Let_def c syncCosts_fields notifyChanges_def runSearch_def e called_def)
qed

lemma tf120: "tailFirst (Suc 0) 20 = -19" by (simp add: tailFirst_def)

lemma ex_single_pose_plan:
  "xs_of (smoothPlan 20 [roughPose ex_world (pose_at 0 0 1) (startPoint ex_world (pose_at 0 0 1) 0)]) = [0]"
  by (simp add: xs_of_def smoothPlan_def overwriteOrientation_def tailPass_def mainPass_def
        tailIndices_def tf120 mainWindow_def windowMean_def roughPose_def startPoint_def
        pose_at_def ex_world_def upto_rec1 Let_def)

theorem successful_cycle_plan_nonempty_witness:
  "sbpl_cost_multiplier ex_planner \<noteq> 0
   \<and> makePlanInternal ex_planner ex_world ex_engine (pose_at 0 0 1) (pose_at 1 0 0) []
        = Inr (True, fst (snd ex_cycle), snd (snd ex_cycle))
   \<and> r_ConvertStateIDPathintoXYThetaPath ex_engine = Some []
   \<and> fst (snd ex_cycle) \<noteq> []
   \<and> xs_of (fst (snd ex_cycle)) = [0]
   \<and> publish_rough_plan [roughPose ex_world (pose_at 0 0 1) (startPoint ex_world (pose_at 0 0 1) 0)]
        \<in> set (new_calls ex_planner (snd (snd ex_cycle)))"
proof -
  have h1: "sbpl_cost_multiplier ex_planner \<noteq> 0" by (simp add: ex_planner_def)
  have h2: "makePlanInternal ex_planner ex_world ex_engine (pose_at 0 0 1) (pose_at 1 0 0) []
        = Inr (True, fst (snd ex_cycle), snd (snd ex_cycle))"
    unfolding ex_makePlanInternal using ex_cycle_plan(1) by (simp add: prod_eq_iff)
  have h3: "r_ConvertStateIDPathintoXYThetaPath ex_engine = Some []" by (simp add: ex_engine_def)
  have x: "xs_of (fst (snd ex_cycle)) = [0]" unfolding ex_cycle_plan(2) by (rule ex_single_pose_plan)
  note t = successful_cycle_plan_nonempty [OF h1, where w = ex_world and e = ex_engine
      and start = "pose_at 0 0 1" and goal = "pose_at 1 0 0" and plan = "[]"
      and plan' = "fst (snd ex_cycle)" and P' = "snd (snd ex_cycle)", unfolded ex_theta]
  from t h2 h3 have n: "fst (snd ex_cycle) \<noteq> []" by blast
  from t h2 h3 have p: "publish_rough_plan
      [roughPose ex_world (pose_at 0 0 1) (startPoint ex_world (pose_at 0 0 1) 0)]
        \<in> set (new_calls ex_planner (snd (snd ex_cycle)))" by blast
  from h1 h2 h3 n x p show ?thesis by (intro conjI)
qed

lemma planCycle_fields:
  "previous_goal (snd (snd (planCycle P w e start goal))) = previous_goal P"
proof -
  have "planCycle P w e start goal = (fst (planCycle P w e start goal),
      fst (snd (planCycle P w e start goal)), snd (snd (planCycle P w e start goal)))" by simp
  from planCycle_cases[OF this] obtain g cs where
    "snd (snd (planCycle P w e start goal)) = P\<lparr>env := g, calls := calls P @ cs\<rparr>" by blast
  then show ?thesis by simp
qed

lemma sqrt_25: "sqrt 25 = 5"
  using real_sqrt_abs2[of 5] by simp

lemma ex_clampGoal: "clampGoal (pose_at 0 0 1) (pose_at 5 0 1) = pose_at 5 0 1"
  by (simp add: clampGoal_def pose_at_def Let_def sqrt_25 maximum_planning_distance_def)

lemma ex_must_make_plan: "must_make_plan ex_planner (pose_at 0 0 1) (pose_at 5 0 1)"
  by (simp add: must_make_plan_def ex_planner_def pose_at_def)

lemma ex_failed_cycle_result:
  "fst ex_failed_cycle = False"
  "fst (snd ex_failed_cycle) = []"
  "calls (snd (snd ex_failed_cycle)) =
     [SetStart 0 0 0, set_start 0, SetGoal 5 0 0, set_goal 1, costs_changed [(1, 0)],
      set_initialsolution_eps, set_search_mode False, replan, publish_stats 0 0]"
proof -
  have l: "force_scratch_limit ex_planner = 500" "calls ex_planner = []"
    by (simp_all add: ex_planner_def)
  have e: "r_costs_changed ex_engine_no_solution = Some ()"
    "r_force_planning_from_scratch ex_engine_no_solution = Some ()"
    "r_replan ex_engine_no_solution = Some (0, [], 0)"
    "r_SetStart ex_engine_no_solution = Some 0" "r_set_start ex_engine_no_solution = Some 1"
    "r_SetGoal ex_engine_no_solution = Some 1" "r_set_goal ex_engine_no_solution = Some 1"
    by (simp_all add: ex_engine_no_solution_def ex_engine_def)
  have w: "getOriginX ex_world = 0" "getOriginY ex_world = 0" by (simp_all add: ex_world_def)
  have p: "p_x (position (pose (pose_at x y t))) = x" "p_y (position (pose (pose_at x y t))) = y" for x y t
    by (simp_all add: pose_at_def)
  have c0: "changedcellsV (syncCosts ex_world (ex_planner\<lparr>previous_goal := gl\<rparr>)) = [(1, 0)]" for gl
    by (simp add: syncCosts_changedcellsV ex_world_def ex_planner_def upt2
        costMapCostToSBPLCost_def sentinel_defs)
  have c: "changedcellsV (syncCosts ex_world (ex_planner\<lparr>previous_goal := gl, calls := cs\<rparr>)) = [(1, 0)]"
    "allCount (syncCosts ex_world (ex_planner\<lparr>previous_goal := gl, calls := cs\<rparr>)) = 1" for cs gl
    using syncCosts_calls(1)[where w = ex_world and P = "ex_planner\<lparr>previous_goal := gl\<rparr>"
        and cs = cs] c0[of gl]
    by (simp_all add: syncCosts_allCount)
  show "fst ex_failed_cycle = False"
    by (simp add: l ex_failed_cycle_def planCycle_def ex_theta setStartState_def setGoalState_def w p
          Let_def c syncCosts_fields notifyChanges_def runSearch_def e called_def)
  show "fst (snd ex_failed_cycle) = []"
    by (simp add: l ex_failed_cycle_def planCycle_def ex_theta setStartState_def setGoalState_def w p
          Let_def c syncCosts_fields notifyChanges_def runSearch_def e called_def)
  show "calls (snd (snd ex_failed_cycle)) =
     [SetStart 0 0 0, set_start 0, SetGoal 5 0 0, set_goal 1, costs_changed [(1, 0)],
      set_initialsolution_eps, set_search_mode False, replan, publish_stats 0 0]"
    by (simp add: l ex_failed_cycle_def planCycle_def ex_theta setStartState_def setGoalState_def w p
          Let_def c syncCosts_fields notifyChanges_def runSearch_def e called_def)
qed

lemma ex_failed_request_eq:
  "ex_failed_request =
     Inr (False, [], (snd (snd ex_failed_cycle))
            \<lparr>previous_plan := [], robot_pose_when_plan_was_created := pose_at 0 0 1\<rparr>)"
proof -
  have r: "getRobotPose ex_world = Some (pose_at 0 0 1)" by (simp add: ex_world_def)
  have i: "initialized (ex_planner\<lparr>previous_goal := pose_at 5 0 1\<rparr>)" by (simp add: ex_planner_def)
  have d: "\<not> do_init (ex_planner\<lparr>previous_goal := pose_at 5 0 1\<rparr>) ex_world"
    by (simp add: do_init_def ex_planner_def ex_world_def computeCircumscribedCost_def)
  have m: "makePlanInternal (ex_planner\<lparr>previous_goal := pose_at 5 0 1\<rparr>) ex_world
      ex_engine_no_solution (pose_at 0 0 1) (pose_at 5 0 1) [] = Inr ex_failed_cycle"
    using i d by (simp add: makePlanInternal_def ex_failed_cycle_def)
  have c: "ex_failed_cycle = (False, [], snd (snd ex_failed_cycle))"
    using ex_failed_cycle_result(1,2) by (simp add: prod_eq_iff)
  show ?thesis
    unfolding ex_failed_request_def makePlan_def
    by (simp add: r ex_must_make_plan ex_clampGoal Let_def m, subst c, simp)
qed

section \<open>The plan cache\<close>

text \<open>
  Claim C1 as stated fails. The request of the scenario for a new goal runs the search,
  which finds nothing; the call returns false, and afterwards the cached plan is empty, the
  cached goal is the new goal and the recorded robot pose is the current one.
\<close>

theorem failed_search_overwrites_cache:
  "\<not> isl ex_failed_request
   \<and> \<not> fst (projr ex_failed_request)
   \<and> replan \<in> set (calls (snd (snd (projr ex_failed_request))))
   \<and> previous_plan ex_planner = [pose_at 0 0 0, pose_at 1 0 0]
   \<and> previous_plan (snd (snd (projr ex_failed_request))) = []
   \<and> previous_goal ex_planner = pose_at 1 0 0
   \<and> previous_goal (snd (snd (projr ex_failed_request))) = pose_at 5 0 1
   \<and> robot_pose_when_plan_was_created ex_planner = pose_at 0 0 0
   \<and> robot_pose_when_plan_was_created (snd (snd (projr ex_failed_request))) = pose_at 0 0 1"
proof -
  have g: "previous_goal (snd (snd ex_failed_cycle)) = pose_at 5 0 1"
    unfolding ex_failed_cycle_def planCycle_fields by simp
  have p: "previous_plan ex_planner = [pose_at 0 0 0, pose_at 1 0 0]"
    "previous_goal ex_planner = pose_at 1 0 0"
    "robot_pose_when_plan_was_created ex_planner = pose_at 0 0 0"
    by (simp_all add: ex_planner_def)
  show ?thesis
    unfolding ex_failed_request_eq by (simp add: g p ex_failed_cycle_result(3))
qed

text \<open>
  Claim C1, amended. A request that replans and returns, whether the cycle succeeded or
  not, leaves the requested goal as the cached goal, the returned plan as the cached plan
  and the current robot pose as the recorded pose; after a failed cycle the cached plan is
  empty. A request that does not replan, or finds no robot pose, leaves the planner as it
  was.
\<close>

theorem replanning_overwrites_cache:
  assumes "sbpl_cost_multiplier P \<noteq> 0"
  shows "(getRobotPose w = Some robot_pose \<and> must_make_plan P robot_pose goal
          \<and> makePlan P w e start goal plan = Inr (ok, plan', P') \<longrightarrow>
            previous_goal P' = goal \<and> previous_plan P' = plan'
          \<and> robot_pose_when_plan_was_created P' = robot_pose
          \<and> (\<not> ok \<longrightarrow> previous_plan P' = []))
    \<and> (getRobotPose w = None \<or> (getRobotPose w = Some robot_pose \<and> \<not> must_make_plan P robot_pose goal)
          \<longrightarrow> (\<exists>ok pl. makePlan P w e start goal plan = Inr (ok, pl, P)))"
proof -
  have A: "previous_goal P' = goal \<and> previous_plan P' = plan'
          \<and> robot_pose_when_plan_was_created P' = robot_pose
          \<and> (\<not> ok \<longrightarrow> previous_plan P' = [])"
    if r: "getRobotPose w = Some robot_pose" and mm: "must_make_plan P robot_pose goal"
      and m: "makePlan P w e start goal plan = Inr (ok, plan', P')"
  proof -
    from r mm m obtain P2 where
      i: "makePlanInternal (P\<lparr>previous_goal := goal\<rparr>) w e start (clampGoal robot_pose goal) plan
           = Inr (ok, plan', P2)"
      and P': "P' = P2\<lparr>previous_plan := plan', robot_pose_when_plan_was_created := robot_pose\<rparr>"
      by (auto simp: makePlan_def Let_def split: sum.splits)
    from makePlanInternal_result[OF i] have "previous_goal P2 = goal" "\<not> ok \<longrightarrow> plan' = []"
      by simp_all
    then show ?thesis unfolding P' by simp
  qed
  have B: "\<exists>ok pl. makePlan P w e start goal plan = Inr (ok, pl, P)"
    if "getRobotPose w = None \<or> (getRobotPose w = Some robot_pose \<and> \<not> must_make_plan P robot_pose goal)"
    using that by (auto simp: makePlan_def)
  from A B show ?thesis by blast
qed

theorem replanning_overwrites_cache_witness:
  "sbpl_cost_multiplier ex_planner \<noteq> 0
   \<and> getRobotPose ex_world = Some (pose_at 0 0 1)
   \<and> must_make_plan ex_planner (pose_at 0 0 1) (pose_at 5 0 1)
   \<and> makePlan ex_planner ex_world ex_engine_no_solution (pose_at 0 0 1) (pose_at 5 0 1) []
        = Inr (False, [], snd (snd (projr ex_failed_request)))
   \<and> previous_goal (snd (snd (projr ex_failed_request))) = pose_at 5 0 1
   \<and> previous_plan (snd (snd (projr ex_failed_request))) = []
   \<and> robot_pose_when_plan_was_created (snd (snd (projr ex_failed_request))) = pose_at 0 0 1"
proof -
  have h1: "sbpl_cost_multiplier ex_planner \<noteq> 0" by (simp add: ex_planner_def)
  have h2: "getRobotPose ex_world = Some (pose_at 0 0 1)" by (simp add: ex_world_def)
  note h3 = ex_must_make_plan
  have h4: "makePlan ex_planner ex_world ex_engine_no_solution (pose_at 0 0 1) (pose_at 5 0 1) []
        = Inr (False, [], snd (snd (projr ex_failed_request)))"
  proof -
    obtain X where X: "ex_failed_request = Inr (False, [], X)"
      using ex_failed_request_eq by blast
    have "snd (snd (projr ex_failed_request)) = X" unfolding X by simp
    with X show ?thesis unfolding ex_failed_request_def by simp
  qed
  note t = replanning_overwrites_cache [OF h1, where w = ex_world and e = ex_engine_no_solution
      and robot_pose = "pose_at 0 0 1" and goal = "pose_at 5 0 1" and start = "pose_at 0 0 1"
      and plan = "[]" and ok = False and plan' = "[]" and P' = "snd (snd (projr ex_failed_request))"]
  from t h2 h3 h4 have c: "previous_goal (snd (snd (projr ex_failed_request))) = pose_at 5 0 1
     \<and> previous_plan (snd (snd (projr ex_failed_request))) = []
     \<and> robot_pose_when_plan_was_created (snd (snd (projr ex_failed_request))) = pose_at 0 0 1"
    by blast
  from c have c1: "previous_goal (snd (snd (projr ex_failed_request))) = pose_at 5 0 1"
    and c2: "previous_plan (snd (snd (projr ex_failed_request))) = []"
    and c3: "robot_pose_when_plan_was_created (snd (snd (projr ex_failed_request))) = pose_at 0 0 1"
    by blast+
  from h1 h2 h3 h4 c1 c2 c3 show ?thesis by (intro conjI)
qed

section \<open>The goal posed to the search\<close>

lemma setStartState_accepted: "fst (setStartState P w e start th) = start_accepted e"
  by (simp add: setStartState_def start_accepted_def Let_def split: option.splits)

lemma setStartState_SetGoal:
  "filter is_SetGoal (calls (snd (setStartState P w e start th))) = filter is_SetGoal (calls P)"
  by (simp add: setStartState_def called_def is_SetGoal_def Let_def split: option.splits)

lemma setGoalState_SetGoal:
  "filter is_SetGoal (calls (snd (setGoalState P w e goal th))) =
     filter is_SetGoal (calls P)
       @ [SetGoal (p_x (position (pose goal)) - getOriginX w)
                  (p_y (position (pose goal)) - getOriginY w) th]"
  by (simp add: setGoalState_def called_def is_SetGoal_def Let_def split: option.splits)

lemma notifyChanges_SetGoal:
  "filter is_SetGoal (calls (snd (notifyChanges P e cells count))) = filter is_SetGoal (calls P)"
  by (simp add: notifyChanges_def called_def is_SetGoal_def Let_def)

lemma runSearch_SetGoal:
  "filter is_SetGoal (calls (snd (snd (runSearch P w e start th)))) = filter is_SetGoal (calls P)"
  by (simp add: runSearch_def called_def is_SetGoal_def Let_def split: option.splits prod.splits)

lemma planCycle_SetGoal:
  "filter is_SetGoal (calls (snd (snd (planCycle P w e start goal)))) =
     filter is_SetGoal (calls P)
       @ (if start_accepted e
          then [SetGoal (p_x (position (pose goal)) - getOriginX w)
                        (p_y (position (pose goal)) - getOriginY w)
                        (2 * atan2 (q_z (orientation (pose goal))) (q_w (orientation (pose goal))))]
          else [])"
  by (simp add: planCycle_def Let_def split_beta setStartState_accepted setStartState_SetGoal
        setGoalState_SetGoal notifyChanges_SetGoal runSearch_SetGoal syncCosts_fields)

lemma initialize_SetGoal:
  assumes "initialize P w e = Inr P'"
  shows "filter is_SetGoal (calls P') = filter is_SetGoal (calls P)"
  using assms
  by (auto simp: initialize_def Let_def called_def seedCosts_fields is_SetGoal_def
        split: if_splits sum.splits option.splits)

lemma makePlanInternal_calls:
  assumes "makePlanInternal P w e start goal plan = Inr (ok, pl, P')"
  shows "\<exists>cs. calls P' = calls P @ cs"
proof (cases "initialized P")
  case False
  with assms show ?thesis by (simp add: makePlanInternal_def)
next
  case True
  with assms obtain P1 where i: "(if do_init P w then initialize (P\<lparr>initialized := False\<rparr>) w e else Inr P) = Inr P1"
    and c: "planCycle P1 w e start goal = (ok, pl, P')"
    by (auto simp: makePlanInternal_def split: sum.splits)
  from i obtain ics where ics: "calls P1 = calls P @ ics"
    using initialize_frame[of "P\<lparr>initialized := False\<rparr>" w e P1] by (auto split: if_splits)
  from planCycle_cases[OF c] obtain g cs where "P' = P1\<lparr>env := g, calls := calls P1 @ cs\<rparr>"
    by blast
  with ics show ?thesis by simp
qed

lemma makePlanInternal_SetGoal:
  assumes "makePlanInternal P w e start goal plan = Inr (ok, pl, P')"
  shows "filter is_SetGoal (calls P') =
     filter is_SetGoal (calls P)
       @ (if initialized P \<and> start_accepted e
          then [SetGoal (p_x (position (pose goal)) - getOriginX w)
                        (p_y (position (pose goal)) - getOriginY w)
                        (2 * atan2 (q_z (orientation (pose goal))) (q_w (orientation (pose goal))))]
          else [])"
proof (cases "initialized P")
  case False
  with assms show ?thesis by (simp add: makePlanInternal_def)
next
  case True
  with assms obtain P1 where i: "(if do_init P w then initialize (P\<lparr>initialized := False\<rparr>) w e else Inr P) = Inr P1"
    and c: "planCycle P1 w e start goal = (ok, pl, P')"
    by (auto simp: makePlanInternal_def split: sum.splits)
  from i have f: "filter is_SetGoal (calls P1) = filter is_SetGoal (calls P)"
    using initialize_SetGoal[of "P\<lparr>initialized := False\<rparr>" w e P1] by (auto split: if_splits)
  from c have "P' = snd (snd (planCycle P1 w e start goal))" by simp
  then show ?thesis using True f by (simp add: planCycle_SetGoal)
qed

lemma makePlan_SetGoal:
  assumes "getRobotPose w = Some robot_pose"
    and "must_make_plan P robot_pose goal"
    and "makePlan P w e start goal plan = Inr (ok, plan', P')"
  shows "filter is_SetGoal (new_calls P P') =
       (if initialized P \<and> start_accepted e
        then [SetGoal (p_x (position (pose (clampGoal robot_pose goal))) - getOriginX w)
                      (p_y (position (pose (clampGoal robot_pose goal))) - getOriginY w)
                      (2 * atan2 (q_z (orientation (pose (clampGoal robot_pose goal))))
                                 (q_w (orientation (pose (clampGoal robot_pose goal)))))]
        else [])"
proof -
  from assms obtain P2 where
    i: "makePlanInternal (P\<lparr>previous_goal := goal\<rparr>) w e start (clampGoal robot_pose goal) plan
         = Inr (ok, plan', P2)"
    and P': "P' = P2\<lparr>previous_plan := plan', robot_pose_when_plan_was_created := robot_pose\<rparr>"
    by (auto simp: makePlan_def Let_def split: sum.splits)
  from makePlanInternal_calls[OF i] obtain cs where cs: "calls P2 = calls P @ cs" by auto
  from makePlanInternal_SetGoal[OF i] cs
  have "filter is_SetGoal cs =
       (if initialized P \<and> start_accepted e
        then [SetGoal (p_x (position (pose (clampGoal robot_pose goal))) - getOriginX w)
                      (p_y (position (pose (clampGoal robot_pose goal))) - getOriginY w)
                      (2 * atan2 (q_z (orientation (pose (clampGoal robot_pose goal))))
                                 (q_w (orientation (pose (clampGoal robot_pose goal)))))]
        else [])"
    by simp
  moreover have "new_calls P P' = cs" unfolding P' by (simp add: new_calls_def cs)
  ultimately show ?thesis by simp
qed

text \<open>
  Claim C7. In a request that replans, the only goal posed to the search (the only
  \<^verbatim>\<open>SetGoal\<close> call of the request, made when the planner is initialized and the
  engine accepts the start) is this. If the requested goal is at most 20 units from the
  robot, it is the requested goal, unmodified. Otherwise it lies 20 units from the robot
  in the direction of the requested goal, and its heading is \<open>atan2 (Gy - Ry) (Gx - Rx)\<close>.
  The coordinates handed to the environment are taken relative to the costmap's origin.
\<close>

theorem posed_goal_horizon:
  assumes "getRobotPose w = Some robot_pose"
    and "must_make_plan P robot_pose goal"
    and "makePlan P w e start goal plan = Inr (ok, plan', P')"
  shows "(distanceBetweenPoses goal robot_pose \<le> 20 \<longrightarrow>
            clampGoal robot_pose goal = goal
          \<and> filter is_SetGoal (new_calls P P') =
              (if initialized P \<and> start_accepted e
               then [SetGoal (p_x (position (pose goal)) - getOriginX w)
                             (p_y (position (pose goal)) - getOriginY w)
                             (2 * atan2 (q_z (orientation (pose goal)))
                                        (q_w (orientation (pose goal))))]
               else []))
   \<and> (distanceBetweenPoses goal robot_pose > 20 \<longrightarrow>
        filter is_SetGoal (new_calls P P') =
          (if initialized P \<and> start_accepted e
           then [SetGoal (p_x (position (pose robot_pose))
                            + 20 * ((p_x (position (pose goal)) - p_x (position (pose robot_pose)))
                                     / distanceBetweenPoses goal robot_pose) - getOriginX w)
                         (p_y (position (pose robot_pose))
                            + 20 * ((p_y (position (pose goal)) - p_y (position (pose robot_pose)))
                                     / distanceBetweenPoses goal robot_pose) - getOriginY w)
                         (atan2 (p_y (position (pose goal)) - p_y (position (pose robot_pose)))
                                (p_x (position (pose goal)) - p_x (position (pose robot_pose))))]
           else [])
      \<and> p_x (position (pose (clampGoal robot_pose goal))) =
          p_x (position (pose robot_pose))
            + 20 * ((p_x (position (pose goal)) - p_x (position (pose robot_pose)))
                     / distanceBetweenPoses goal robot_pose)
      \<and> p_y (position (pose (clampGoal robot_pose goal))) =
          p_y (position (pose robot_pose))
            + 20 * ((p_y (position (pose goal)) - p_y (position (pose robot_pose)))
                     / distanceBetweenPoses goal robot_pose)
      \<and> p_z (position (pose (clampGoal robot_pose goal))) = p_z (position (pose goal))
      \<and> header (clampGoal robot_pose goal) = header goal
      \<and> orientation (pose (clampGoal robot_pose goal)) =
          createQuaternionMsgFromYaw
            (atan2 (p_y (position (pose goal)) - p_y (position (pose robot_pose)))
                   (p_x (position (pose goal)) - p_x (position (pose robot_pose))))
      \<and> 2 * atan2 (q_z (orientation (pose (clampGoal robot_pose goal))))
                   (q_w (orientation (pose (clampGoal robot_pose goal)))) =
          atan2 (p_y (position (pose goal)) - p_y (position (pose robot_pose)))
                (p_x (position (pose goal)) - p_x (position (pose robot_pose))))"
proof -
  note s = makePlan_SetGoal[OF assms]
  note c = clampGoal_cases[of goal robot_pose]
  show ?thesis
  proof (cases "distanceBetweenPoses goal robot_pose \<le> 20")
    case True
    with c have "clampGoal robot_pose goal = goal" by blast
    with s True show ?thesis by simp
  next
    case False
    then have far: "distanceBetweenPoses goal robot_pose > 20" by simp
    from c far have c': "p_x (position (pose (clampGoal robot_pose goal))) =
          p_x (position (pose robot_pose))
            + 20 * ((p_x (position (pose goal)) - p_x (position (pose robot_pose)))
                     / distanceBetweenPoses goal robot_pose)
      \<and> p_y (position (pose (clampGoal robot_pose goal))) =
          p_y (position (pose robot_pose))
            + 20 * ((p_y (position (pose goal)) - p_y (position (pose robot_pose)))
                     / distanceBetweenPoses goal robot_pose)
      \<and> p_z (position (pose (clampGoal robot_pose goal))) = p_z (position (pose goal))
      \<and> header (clampGoal robot_pose goal) = header goal
      \<and> orientation (pose (clampGoal robot_pose goal)) =
          createQuaternionMsgFromYaw
            (atan2 (p_y (position (pose goal)) - p_y (position (pose robot_pose)))
                   (p_x (position (pose goal)) - p_x (position (pose robot_pose))))
      \<and> 2 * atan2 (q_z (orientation (pose (clampGoal robot_pose goal))))
                   (q_w (orientation (pose (clampGoal robot_pose goal)))) =
          atan2 (p_y (position (pose goal)) - p_y (position (pose robot_pose)))
                (p_x (position (pose goal)) - p_x (position (pose robot_pose)))"
      by (rule mp[OF conjunct2])
    from c' have
      x: "p_x (position (pose (clampGoal robot_pose goal))) =
          p_x (position (pose robot_pose))
            + 20 * ((p_x (position (pose goal)) - p_x (position (pose robot_pose)))
                     / distanceBetweenPoses goal robot_pose)"
      by (elim conjE)
    from c' have
      y: "p_y (position (pose (clampGoal robot_pose goal))) =
          p_y (position (pose robot_pose))
            + 20 * ((p_y (position (pose goal)) - p_y (position (pose robot_pose)))
                     / distanceBetweenPoses goal robot_pose)"
      by (elim conjE)
    from c' have
      h: "2 * atan2 (q_z (orientation (pose (clampGoal robot_pose goal))))
                   (q_w (orientation (pose (clampGoal robot_pose goal)))) =
          atan2 (p_y (position (pose goal)) - p_y (position (pose robot_pose)))
                (p_x (position (pose goal)) - p_x (position (pose robot_pose)))"
      by (elim conjE)
    have "filter is_SetGoal (new_calls P P') =
          (if initialized P \<and> start_accepted e
           then [SetGoal (p_x (position (pose robot_pose))
                            + 20 * ((p_x (position (pose goal)) - p_x (position (pose robot_pose)))
                                     / distanceBetweenPoses goal robot_pose) - getOriginX w)
                         (p_y (position (pose robot_pose))
                            + 20 * ((p_y (position (pose goal)) - p_y (position (pose robot_pose)))
                                     / distanceBetweenPoses goal robot_pose) - getOriginY w)
                         (atan2 (p_y (position (pose goal)) - p_y (position (pose robot_pose)))
                                (p_x (position (pose goal)) - p_x (position (pose robot_pose))))]
           else [])"
      unfolding s x y h ..
    from this c' have both: "filter is_SetGoal (new_calls P P') =
          (if initialized P \<and> start_accepted e
           then [SetGoal (p_x (position (pose robot_pose))
                            + 20 * ((p_x (position (pose goal)) - p_x (position (pose robot_pose)))
                                     / distanceBetweenPoses goal robot_pose) - getOriginX w)
                         (p_y (position (pose robot_pose))
                            + 20 * ((p_y (position (pose goal)) - p_y (position (pose robot_pose)))
                                     / distanceBetweenPoses goal robot_pose) - getOriginY w)
                         (atan2 (p_y (position (pose goal)) - p_y (position (pose robot_pose)))
                                (p_x (position (pose goal)) - p_x (position (pose robot_pose))))]
           else [])
      \<and> p_x (position (pose (clampGoal robot_pose goal))) =
          p_x (position (pose robot_pose))
            + 20 * ((p_x (position (pose goal)) - p_x (position (pose robot_pose)))
                     / distanceBetweenPoses goal robot_pose)
      \<and> p_y (position (pose (clampGoal robot_pose goal))) =
          p_y (position (pose robot_pose))
            + 20 * ((p_y (position (pose goal)) - p_y (position (pose robot_pose)))
                     / distanceBetweenPoses goal robot_pose)
      \<and> p_z (position (pose (clampGoal robot_pose goal))) = p_z (position (pose goal))
      \<and> header (clampGoal robot_pose goal) = header goal
      \<and> orientation (pose (clampGoal robot_pose goal)) =
          createQuaternionMsgFromYaw
            (atan2 (p_y (position (pose goal)) - p_y (position (pose robot_pose)))
                   (p_x (position (pose goal)) - p_x (position (pose robot_pose))))
      \<and> 2 * atan2 (q_z (orientation (pose (clampGoal robot_pose goal))))
                   (q_w (orientation (pose (clampGoal robot_pose goal)))) =
          atan2 (p_y (position (pose goal)) - p_y (position (pose robot_pose)))
                (p_x (position (pose goal)) - p_x (position (pose robot_pose)))"
      by (rule conjI)
    show ?thesis
    proof (rule conjI)
      show "distanceBetweenPoses goal robot_pose \<le> 20 \<longrightarrow>
            clampGoal robot_pose goal = goal
          \<and> filter is_SetGoal (new_calls P P') =
              (if initialized P \<and> start_accepted e
               then [SetGoal (p_x (position (pose goal)) - getOriginX w)
                             (p_y (position (pose goal)) - getOriginY w)
                             (2 * atan2 (q_z (orientation (pose goal)))
                                        (q_w (orientation (pose goal))))]
               else [])"
        using False by (intro impI) (erule notE)
    next
      from both show "distanceBetweenPoses goal robot_pose > 20 \<longrightarrow>
        filter is_SetGoal (new_calls P P') =
          (if initialized P \<and> start_accepted e
           then [SetGoal (p_x (position (pose robot_pose))
                            + 20 * ((p_x (position (pose goal)) - p_x (position (pose robot_pose)))
                                     / distanceBetweenPoses goal robot_pose) - getOriginX w)
                         (p_y (position (pose robot_pose))
                            + 20 * ((p_y (position (pose goal)) - p_y (position (pose robot_pose)))
                                     / distanceBetweenPoses goal robot_pose) - getOriginY w)
                         (atan2 (p_y (position (pose goal)) - p_y (position (pose robot_pose)))
                                (p_x (position (pose goal)) - p_x (position (pose robot_pose))))]
           else [])
      \<and> p_x (position (pose (clampGoal robot_pose goal))) =
          p_x (position (pose robot_pose))
            + 20 * ((p_x (position (pose goal)) - p_x (position (pose robot_pose)))
                     / distanceBetweenPoses goal robot_pose)
      \<and> p_y (position (pose (clampGoal robot_pose goal))) =
          p_y (position (pose robot_pose))
            + 20 * ((p_y (position (pose goal)) - p_y (position (pose robot_pose)))
                     / distanceBetweenPoses goal robot_pose)
      \<and> p_z (position (pose (clampGoal robot_pose goal))) = p_z (position (pose goal))
      \<and> header (clampGoal robot_pose goal) = header goal
      \<and> orientation (pose (clampGoal robot_pose goal)) =
          createQuaternionMsgFromYaw
            (atan2 (p_y (position (pose goal)) - p_y (position (pose robot_pose)))
                   (p_x (position (pose goal)) - p_x (position (pose robot_pose))))
      \<and> 2 * atan2 (q_z (orientation (pose (clampGoal robot_pose goal))))
                   (q_w (orientation (pose (clampGoal robot_pose goal)))) =
          atan2 (p_y (position (pose goal)) - p_y (position (pose robot_pose)))
                (p_x (position (pose goal)) - p_x (position (pose robot_pose)))"
        by (intro impI)
    qed
  qed
qed

lemma ex_far_request_returns: "\<not> isl ex_far_request"
proof -
  have r: "getRobotPose ex_world = Some (pose_at 0 0 1)" by (simp add: ex_world_def)
  have i: "initialized (ex_planner\<lparr>previous_goal := gl\<rparr>)" for gl by (simp add: ex_planner_def)
  have d: "\<not> do_init (ex_planner\<lparr>previous_goal := gl\<rparr>) ex_world" for gl
    by (simp add: do_init_def ex_planner_def ex_world_def computeCircumscribedCost_def)
  show ?thesis
    unfolding ex_far_request_def makePlan_def
    by (simp add: r Let_def makePlanInternal_def i d split_beta)
qed

theorem posed_goal_horizon_witness:
  "getRobotPose ex_world = Some (pose_at 0 0 1)
   \<and> must_make_plan ex_planner (pose_at 0 0 1) (pose_at 100 0 0)
   \<and> \<not> isl ex_far_request
   \<and> initialized ex_planner \<and> start_accepted ex_engine
   \<and> distanceBetweenPoses (pose_at 100 0 0) (pose_at 0 0 1) > 20
   \<and> filter is_SetGoal (new_calls ex_planner (snd (snd (projr ex_far_request)))) = [SetGoal 20 0 0]"
proof -
  have h1: "getRobotPose ex_world = Some (pose_at 0 0 1)" by (simp add: ex_world_def)
  have h2: "must_make_plan ex_planner (pose_at 0 0 1) (pose_at 100 0 0)"
    by (simp add: must_make_plan_def ex_planner_def pose_at_def)
  note h3 = ex_far_request_returns
  then have "ex_far_request = Inr (projr ex_far_request)" by simp
  then have h4: "makePlan ex_planner ex_world ex_engine (pose_at 0 0 1) (pose_at 100 0 0) []
      = Inr (fst (projr ex_far_request), fst (snd (projr ex_far_request)),
             snd (snd (projr ex_far_request)))"
    by (simp add: ex_far_request_def)
  have h5: "initialized ex_planner" by (simp add: ex_planner_def)
  have h6: "start_accepted ex_engine" by (simp add: start_accepted_def ex_engine_def)
  have d: "distanceBetweenPoses (pose_at 100 0 0) (pose_at 0 0 1) = 100"
    by (simp add: distanceBetweenPoses_def pose_at_def sqrt_10000)
  have a: "atan2 0 100 = 0" by (simp add: atan2_def)
  have c: "p_x (position (pose (pose_at x y t))) = x" "p_y (position (pose (pose_at x y t))) = y" for x y t
    by (simp_all add: pose_at_def)
  have o: "getOriginX ex_world = 0" "getOriginY ex_world = 0" by (simp_all add: ex_world_def)
  from posed_goal_horizon [OF h1 h2 h4]
  have "filter is_SetGoal (new_calls ex_planner (snd (snd (projr ex_far_request)))) = [SetGoal 20 0 0]"
    by (simp add: d c a o h5 h6)
  with h1 h2 h3 h5 h6 d show ?thesis by simp
qed

section \<open>Notifications that throw\<close>

lemma setStartState_state:
  "snd (setStartState P w e start th) = P\<lparr>calls := calls (snd (setStartState P w e start th))\<rparr>"
  by (simp add: setStartState_def called_def Let_def split: option.splits)

lemma setGoalState_state:
  "snd (setGoalState P w e goal th) = P\<lparr>calls := calls (snd (setGoalState P w e goal th))\<rparr>"
  by (simp add: setGoalState_def called_def Let_def split: option.splits)


lemma posed_state:
  "\<exists>cs. snd (setGoalState (snd (setStartState P w e start ths)) w e goal thg) = P\<lparr>calls := cs\<rparr>"
proof -
  obtain c1 where c1: "snd (setStartState P w e start ths) = P\<lparr>calls := c1\<rparr>"
    using setStartState_state by blast
  obtain c2 where "snd (setGoalState (P\<lparr>calls := c1\<rparr>) w e goal thg) = P\<lparr>calls := c1\<rparr>\<lparr>calls := c2\<rparr>"
    using setGoalState_state by blast
  with c1 have "snd (setGoalState (snd (setStartState P w e start ths)) w e goal thg) = P\<lparr>calls := c2\<rparr>"
    by simp
  then show ?thesis by (rule exI)
qed

lemma posed_syncCosts:
  "changedcellsV (syncCosts w (snd (setGoalState (snd (setStartState P w e start ths)) w e goal thg)))
     = changedcellsV (syncCosts w P)"
  "allCount (syncCosts w (snd (setGoalState (snd (setStartState P w e start ths)) w e goal thg)))
     = allCount (syncCosts w P)"
  "force_scratch_limit (s_planner (syncCosts w
       (snd (setGoalState (snd (setStartState P w e start ths)) w e goal thg))))
     = force_scratch_limit P"
  "smooth_window (s_planner (syncCosts w
       (snd (setGoalState (snd (setStartState P w e start ths)) w e goal thg))))
     = smooth_window P"
proof -
  obtain cs where cs: "snd (setGoalState (snd (setStartState P w e start ths)) w e goal thg) = P\<lparr>calls := cs\<rparr>"
    using posed_state by blast
  show "changedcellsV (syncCosts w (snd (setGoalState (snd (setStartState P w e start ths)) w e goal thg)))
     = changedcellsV (syncCosts w P)"
    unfolding cs by (rule syncCosts_calls)
  show "allCount (syncCosts w (snd (setGoalState (snd (setStartState P w e start ths)) w e goal thg)))
     = allCount (syncCosts w P)"
    unfolding cs by (rule syncCosts_calls)
  show "force_scratch_limit (s_planner (syncCosts w
       (snd (setGoalState (snd (setStartState P w e start ths)) w e goal thg))))
     = force_scratch_limit P"
    unfolding cs by (simp add: syncCosts_fields)
  show "smooth_window (s_planner (syncCosts w
       (snd (setGoalState (snd (setStartState P w e start ths)) w e goal thg))))
     = smooth_window P"
    unfolding cs by (simp add: syncCosts_fields)
qed

lemma notifyChanges_throws:
  assumes "(cells \<noteq> [] \<and> r_costs_changed e = None)
     \<or> (count > force_scratch_limit P \<and> r_force_planning_from_scratch e = None)"
  shows "\<not> fst (notifyChanges P e cells count)"
  using assms by (auto simp: notifyChanges_def Let_def called_def)


lemma setStartState_replan:
  "filter is_replan (calls (snd (setStartState P w e start th))) = filter is_replan (calls P)"
  by (simp add: setStartState_def called_def is_replan_def Let_def split: option.splits)

lemma setGoalState_replan:
  "filter is_replan (calls (snd (setGoalState P w e goal th))) = filter is_replan (calls P)"
  by (simp add: setGoalState_def called_def is_replan_def Let_def split: option.splits)

lemma notifyChanges_replan:
  "filter is_replan (calls (snd (notifyChanges P e cells count))) = filter is_replan (calls P)"
  by (simp add: notifyChanges_def called_def is_replan_def Let_def)

lemma planCycle_throws:
  assumes "(changedcellsV (syncCosts w P) \<noteq> [] \<and> r_costs_changed e = None)
     \<or> (allCount (syncCosts w P) > force_scratch_limit P
          \<and> r_force_planning_from_scratch e = None)"
  shows "\<not> fst (planCycle P w e start goal)"
    and "fst (snd (planCycle P w e start goal)) = []"
    and "filter is_replan (calls (snd (snd (planCycle P w e start goal)))) = filter is_replan (calls P)"
proof -
  let ?ths = "2 * atan2 (q_z (orientation (pose start))) (q_w (orientation (pose start)))"
  let ?thg = "2 * atan2 (q_z (orientation (pose goal))) (q_w (orientation (pose goal)))"
  let ?P2 = "snd (setGoalState (snd (setStartState P w e start ?ths)) w e goal ?thg)"
  let ?S = "syncCosts w ?P2"
  have n: "\<not> fst (notifyChanges (s_planner ?S) e (changedcellsV ?S) (allCount ?S))"
    by (rule notifyChanges_throws) (use assms in \<open>simp add: posed_syncCosts\<close>)
  show "\<not> fst (planCycle P w e start goal)"
    using n by (simp add: planCycle_def Let_def split_beta)
  show "fst (snd (planCycle P w e start goal)) = []"
    using n by (simp add: planCycle_def Let_def split_beta)
  show "filter is_replan (calls (snd (snd (planCycle P w e start goal)))) = filter is_replan (calls P)"
    using n by (simp add: planCycle_def Let_def split_beta setStartState_replan setGoalState_replan
        notifyChanges_replan syncCosts_fields)
qed



text \<open>
  Claim C4, amended. In a cycle that reaches the search, the notifications made before
  \<^verbatim>\<open>replan\<close>, and in the whole cycle, are these and in this order: the changed
  cells are handed to \<^verbatim>\<open>costs_changed\<close> if and only if there are any, whatever
  the limit; then the planner is told to plan from scratch if and only if the count of
  changed cells is over \<open>force_scratch_limit\<close>. If one of the two calls is due and
  throws, the cycle fails with an empty plan and \<^verbatim>\<open>replan\<close> is not called.
\<close>

theorem synchronization_notifications:
  assumes "sbpl_cost_multiplier P \<noteq> 0"
    and "planCycle P w e start goal = (ok, plan, P')"
  shows "(replan \<in> set (new_calls P P') \<longrightarrow>
           filter is_notification (takeWhile (\<lambda>c. c \<noteq> replan) (new_calls P P')) =
             (if changedcellsV (syncCosts w P) \<noteq> []
              then [costs_changed (changedcellsV (syncCosts w P))] else [])
             @ (if allCount (syncCosts w P) > force_scratch_limit P
                then [force_planning_from_scratch] else [])
         \<and> filter is_notification (new_calls P P') =
             (if changedcellsV (syncCosts w P) \<noteq> []
              then [costs_changed (changedcellsV (syncCosts w P))] else [])
             @ (if allCount (syncCosts w P) > force_scratch_limit P
                then [force_planning_from_scratch] else [])
         \<and> allCount (syncCosts w P) = int (length (changedcellsV (syncCosts w P))))
    \<and> ((changedcellsV (syncCosts w P) \<noteq> [] \<and> r_costs_changed e = None)
          \<or> (allCount (syncCosts w P) > force_scratch_limit P
               \<and> r_force_planning_from_scratch e = None) \<longrightarrow>
           \<not> ok \<and> plan = [] \<and> replan \<notin> set (new_calls P P'))"
proof (rule conjI)
  show "replan \<in> set (new_calls P P') \<longrightarrow>
           filter is_notification (takeWhile (\<lambda>c. c \<noteq> replan) (new_calls P P')) =
             (if changedcellsV (syncCosts w P) \<noteq> []
              then [costs_changed (changedcellsV (syncCosts w P))] else [])
             @ (if allCount (syncCosts w P) > force_scratch_limit P
                then [force_planning_from_scratch] else [])
         \<and> filter is_notification (new_calls P P') =
             (if changedcellsV (syncCosts w P) \<noteq> []
              then [costs_changed (changedcellsV (syncCosts w P))] else [])
             @ (if allCount (syncCosts w P) > force_scratch_limit P
                then [force_planning_from_scratch] else [])
         \<and> allCount (syncCosts w P) = int (length (changedcellsV (syncCosts w P)))"
    by (rule impI) (rule notifications_when_searched[OF assms])
next
  show "(changedcellsV (syncCosts w P) \<noteq> [] \<and> r_costs_changed e = None)
          \<or> (allCount (syncCosts w P) > force_scratch_limit P
               \<and> r_force_planning_from_scratch e = None) \<longrightarrow>
           \<not> ok \<and> plan = [] \<and> replan \<notin> set (new_calls P P')"
  proof (rule impI)
    assume t: "(changedcellsV (syncCosts w P) \<noteq> [] \<and> r_costs_changed e = None)
          \<or> (allCount (syncCosts w P) > force_scratch_limit P
               \<and> r_force_planning_from_scratch e = None)"
    from assms(2) have p: "fst (planCycle P w e start goal) = ok"
      "fst (snd (planCycle P w e start goal)) = plan"
      "snd (snd (planCycle P w e start goal)) = P'"
      by simp_all
    note th = planCycle_throws[OF t, of start goal, unfolded p]
    note a = th(1) and b = th(2) and c = th(3)
    obtain g cs where P': "P' = P\<lparr>env := g, calls := calls P @ cs\<rparr>"
      using planCycle_cases[OF assms(2)] by blast
    have n: "new_calls P P' = cs" unfolding P' by simp
    from c have "filter is_replan cs = []" unfolding P' by simp
    then have "replan \<notin> set cs" by (auto simp: filter_empty_conv is_replan_def)
    with a b n show "\<not> ok \<and> plan = [] \<and> replan \<notin> set (new_calls P P')" by simp
  qed
qed

theorem synchronization_notifications_witness:
  "sbpl_cost_multiplier ex_planner \<noteq> 0
   \<and> replan \<in> set (new_calls ex_planner (snd (snd ex_cycle)))
   \<and> filter is_notification (takeWhile (\<lambda>c. c \<noteq> replan) (new_calls ex_planner (snd (snd ex_cycle))))
        = [costs_changed [(1, 0)]]
   \<and> filter is_notification (new_calls ex_planner (snd (snd ex_cycle))) = [costs_changed [(1, 0)]]
   \<and> changedcellsV (syncCosts ex_world ex_planner) \<noteq> []
   \<and> r_costs_changed ex_engine_throws = None
   \<and> \<not> fst ex_throw_cycle
   \<and> fst (snd ex_throw_cycle) = []
   \<and> replan \<notin> set (new_calls ex_planner (snd (snd ex_throw_cycle)))"
proof -
  have h1: "sbpl_cost_multiplier ex_planner \<noteq> 0" by (simp add: ex_planner_def)
  have h2: "planCycle ex_planner ex_world ex_engine (pose_at 0 0 1) (pose_at 1 0 0)
              = (fst ex_cycle, fst (snd ex_cycle), snd (snd ex_cycle))"
    by (simp add: ex_cycle_def)
  have "replan \<in> set (take 9 (calls (snd (snd ex_cycle))))"
    unfolding ex_cycle_calls by simp
  then have "replan \<in> set (calls (snd (snd ex_cycle)))" by (rule in_set_takeD)
  then have h3: "replan \<in> set (new_calls ex_planner (snd (snd ex_cycle)))"
    by (simp add: new_calls_def ex_planner_def)
  have l: "force_scratch_limit ex_planner = 500" by (simp add: ex_planner_def)
  from synchronization_notifications [OF h1 h2] h3
  have s: "filter is_notification (takeWhile (\<lambda>c. c \<noteq> replan) (new_calls ex_planner (snd (snd ex_cycle))))
        = [costs_changed [(1, 0)]]
     \<and> filter is_notification (new_calls ex_planner (snd (snd ex_cycle))) = [costs_changed [(1, 0)]]"
    by (simp add: ex_syncCosts l)
  have h4: "planCycle ex_planner ex_world ex_engine_throws (pose_at 0 0 1) (pose_at 1 0 0)
              = (fst ex_throw_cycle, fst (snd ex_throw_cycle), snd (snd ex_throw_cycle))"
    by (simp add: ex_throw_cycle_def)
  have h5: "changedcellsV (syncCosts ex_world ex_planner) \<noteq> []" by (simp add: ex_syncCosts)
  have h6: "r_costs_changed ex_engine_throws = None" by (simp add: ex_engine_throws_def)
  from synchronization_notifications [OF h1 h4] h5 h6
  have t: "\<not> fst ex_throw_cycle \<and> fst (snd ex_throw_cycle) = []
     \<and> replan \<notin> set (new_calls ex_planner (snd (snd ex_throw_cycle)))"
    by blast
  from h1 h3 s h5 h6 t show ?thesis by blast
qed

section \<open>The plan of the two smoothing passes\<close>



















end
